theory Spec2Isabelle
  imports Main "HOL-Library.AList"
begin

section \<open>Python values, strings and dictionaries\<close>

text \<open>
  A Python \<open>str\<close> is modelled as a HOL \<open>string\<close>: a list of characters with code points
  below 256.  A \<open>dict\<close> whose iteration order matters is an association list in insertion
  order; \<open>d[k] = v\<close> is \<open>AList.update k v d\<close> and \<open>k in d\<close> is \<open>map_of d k \<noteq> None\<close>.
  An exception is the left summand of a result.
\<close>

datatype py_error = IndexError | KeyError | OSError | OverflowError

datatype pyval = Str string | Num nat | NoneVal

type_synonym transaction = "(string \<times> pyval) list"

type_synonym header_map = "(string \<times> nat) list"

definition upper_chars :: string where
  "upper_chars = ''ABCDEFGHIJKLMNOPQRSTUVWXYZ''"

definition lower_chars :: string where
  "lower_chars = ''abcdefghijklmnopqrstuvwxyz''"

definition digit_chars :: string where
  "digit_chars = ''0123456789''"

text \<open>The code points below 256 for which \<open>str.isspace\<close> holds; the class \<open>\s\<close> of \<open>re\<close>.\<close>

definition space_chars :: string where
  "space_chars = [CHR 0x09, CHR 0x0A, CHR 0x0B, CHR 0x0C, CHR 0x0D, CHR 0x1C, CHR 0x1D,
                  CHR 0x1E, CHR 0x1F, CHR 0x20, CHR 0x85, CHR 0xA0]"

text \<open>The cased letters of Latin-1 beyond ASCII: \<open>0xC0\<close> to \<open>0xDE\<close> without \<open>0xD7\<close>.\<close>

definition latin1_upper_chars :: string where
  "latin1_upper_chars =
     [CHR 0xC0, CHR 0xC1, CHR 0xC2, CHR 0xC3, CHR 0xC4, CHR 0xC5, CHR 0xC6, CHR 0xC7,
      CHR 0xC8, CHR 0xC9, CHR 0xCA, CHR 0xCB, CHR 0xCC, CHR 0xCD, CHR 0xCE, CHR 0xCF,
      CHR 0xD0, CHR 0xD1, CHR 0xD2, CHR 0xD3, CHR 0xD4, CHR 0xD5, CHR 0xD6,
      CHR 0xD8, CHR 0xD9, CHR 0xDA, CHR 0xDB, CHR 0xDC, CHR 0xDD, CHR 0xDE]"

definition latin1_lower_chars :: string where
  "latin1_lower_chars =
     [CHR 0xE0, CHR 0xE1, CHR 0xE2, CHR 0xE3, CHR 0xE4, CHR 0xE5, CHR 0xE6, CHR 0xE7,
      CHR 0xE8, CHR 0xE9, CHR 0xEA, CHR 0xEB, CHR 0xEC, CHR 0xED, CHR 0xEE, CHR 0xEF,
      CHR 0xF0, CHR 0xF1, CHR 0xF2, CHR 0xF3, CHR 0xF4, CHR 0xF5, CHR 0xF6,
      CHR 0xF8, CHR 0xF9, CHR 0xFA, CHR 0xFB, CHR 0xFC, CHR 0xFD, CHR 0xFE]"

definition py_lower_char :: "char \<Rightarrow> char" where
  "py_lower_char c =
     (case map_of (zip (upper_chars @ latin1_upper_chars) (lower_chars @ latin1_lower_chars)) c of
        Some l \<Rightarrow> l
      | None \<Rightarrow> c)"

text \<open>
  Upper-casing as the pattern matcher uses it: one character to one character.  The three
  Latin-1 letters whose capital lies outside the modelled range (\<open>0xB5\<close>, \<open>0xDF\<close>,
  \<open>0xFF\<close>) stay as they are; no pattern of the program contains a capital outside ASCII.
\<close>

definition py_upper_char :: "char \<Rightarrow> char" where
  "py_upper_char c =
     (case map_of (zip (lower_chars @ latin1_lower_chars) (upper_chars @ latin1_upper_chars)) c of
        Some u \<Rightarrow> u
      | None \<Rightarrow> c)"

definition py_lower :: "string \<Rightarrow> string" where
  "py_lower s = map py_lower_char s"

definition is_space :: "char \<Rightarrow> bool" where
  "is_space c = (c \<in> set space_chars)"

definition py_strip :: "string \<Rightarrow> string" where
  "py_strip s = rev (dropWhile is_space (rev (dropWhile is_space s)))"

fun startswith :: "string \<Rightarrow> string \<Rightarrow> bool" where
  "startswith [] s = True"
| "startswith (a # as) [] = False"
| "startswith (a # as) (c # cs) = (a = c \<and> startswith as cs)"

text \<open>\<open>py_in sub s\<close> is Python's \<open>sub in s\<close> on strings.\<close>

fun py_in :: "string \<Rightarrow> string \<Rightarrow> bool" where
  "py_in sub [] = (sub = [])"
| "py_in sub (c # cs) = (startswith sub (c # cs) \<or> py_in sub cs)"

text \<open>\<open>py_join sep xs\<close> is \<open>sep.join(xs)\<close>.\<close>

fun py_join :: "string \<Rightarrow> string list \<Rightarrow> string" where
  "py_join sep [] = []"
| "py_join sep [x] = x"
| "py_join sep (x # y # ys) = x @ sep @ py_join sep (y # ys)"

text \<open>\<open>xs[i]\<close> for an index that is never negative.\<close>

definition py_index :: "'a list \<Rightarrow> nat \<Rightarrow> py_error + 'a" where
  "py_index xs i = (if i < length xs then Inr (xs ! i) else Inl IndexError)"

section \<open>The regular expressions of the program\<close>

text \<open>
  The fragment of \<open>re\<close> that the patterns of the program are written in: character classes,
  sequence, alternation, a greedy optional group, greedy bounded or unbounded repetition of
  a character class, and numbered capturing groups.  \<open>rx_match\<close> lists the ways a pattern
  matches at the start of the text in the order a backtracking matcher tries them, each as
  the remaining text and the groups captured so far (latest first).  The flag is
  \<open>re.IGNORECASE\<close>.
\<close>

datatype regex =
    Eps
  | Cls "char list"
  | Seq regex regex
  | Alt regex regex
  | Opt regex
  | Rep nat "nat option" "char list"
  | Grp nat regex

type_synonym captures = "(nat \<times> string) list"

definition cls_member :: "bool \<Rightarrow> char list \<Rightarrow> char \<Rightarrow> bool" where
  "cls_member ic cs c =
     (c \<in> set cs \<or> (ic \<and> (py_lower_char c \<in> set cs \<or> py_upper_char c \<in> set cs)))"

fun rx_match :: "bool \<Rightarrow> regex \<Rightarrow> string \<Rightarrow> captures \<Rightarrow> (string \<times> captures) list" where
  "rx_match ic Eps s g = [(s, g)]"
| "rx_match ic (Cls cs) s g =
     (case s of [] \<Rightarrow> [] | c # r \<Rightarrow> if cls_member ic cs c then [(r, g)] else [])"
| "rx_match ic (Seq a b) s g = concat (map (\<lambda>(r, g'). rx_match ic b r g') (rx_match ic a s g))"
| "rx_match ic (Alt a b) s g = rx_match ic a s g @ rx_match ic b s g"
| "rx_match ic (Opt a) s g = rx_match ic a s g @ [(s, g)]"
| "rx_match ic (Rep m n cs) s g =
     (let run = length (takeWhile (cls_member ic cs) s);
          k_max = (case n of None \<Rightarrow> run | Some b \<Rightarrow> min b run)
      in map (\<lambda>k. (drop k s, g)) (rev [m ..< Suc k_max]))"
| "rx_match ic (Grp i a) s g =
     map (\<lambda>(r, g'). (r, (i, take (length s - length r) s) # g')) (rx_match ic a s g)"

text \<open>\<open>re.search\<close>: the first way to match at the leftmost position that has one.\<close>

fun rx_search :: "bool \<Rightarrow> regex \<Rightarrow> string \<Rightarrow> (string \<times> captures) option" where
  "rx_search ic p [] = (case rx_match ic p [] [] of m # ms \<Rightarrow> Some m | [] \<Rightarrow> None)"
| "rx_search ic p (c # cs) =
     (case rx_match ic p (c # cs) [] of m # ms \<Rightarrow> Some m | [] \<Rightarrow> rx_search ic p cs)"

text \<open>\<open>match.group(i)\<close>: \<open>None\<close> for a group that took no part in the match.\<close>

definition group :: "captures \<Rightarrow> nat \<Rightarrow> string option" where
  "group g i = map_of g i"

text \<open>A group as \<open>re.findall\<close> reports it: the empty string if it took no part.\<close>

definition group_text :: "captures \<Rightarrow> nat \<Rightarrow> string" where
  "group_text g i = (case map_of g i of Some t \<Rightarrow> t | None \<Rightarrow> [])"

text \<open>
  \<open>re.findall\<close>: the matches from left to right, each search starting where the previous
  match ended, and one character further on after an empty match at the starting position.
\<close>

function rx_findall :: "bool \<Rightarrow> regex \<Rightarrow> string \<Rightarrow> captures list" where
  "rx_findall ic p s =
     (case rx_search ic p s of
        None \<Rightarrow> []
      | Some (rest, g) \<Rightarrow>
          g # (if length rest < length s then rx_findall ic p rest
               else (case s of [] \<Rightarrow> [] | c # cs \<Rightarrow> rx_findall ic p cs)))"
  by pat_completeness auto
termination
  by (relation "measure (\<lambda>(ic, p, s). length s)") auto

definition lit :: "string \<Rightarrow> regex" where
  "lit s = foldr (\<lambda>c r. Seq (Cls [c]) r) s Eps"

definition seqs :: "regex list \<Rightarrow> regex" where
  "seqs rs = foldr Seq rs Eps"

fun alts :: "regex list \<Rightarrow> regex" where
  "alts [] = Eps"
| "alts [r] = r"
| "alts (r # rs) = Alt r (alts rs)"

section \<open>FieldExtractors\<close>

text \<open>\<^verbatim>\<open>[(\[]([A-Z]{1,5})[)\]]\<close>\<close>

definition ticker_bracketed :: regex where
  "ticker_bracketed = seqs [Cls ''(['', Grp 1 (Rep 1 (Some 5) upper_chars), Cls '')]'']"

text \<open>\<^verbatim>\<open>([A-Z]{1,5})\s*-\<close>\<close>

definition ticker_before_hyphen :: regex where
  "ticker_before_hyphen = seqs [Grp 1 (Rep 1 (Some 5) upper_chars), Rep 0 None space_chars, Cls ''-'']"

text \<open>\<^verbatim>\<open>-\s*([A-Z]{1,5})\<close>\<close>

definition ticker_after_hyphen :: regex where
  "ticker_after_hyphen = seqs [Cls ''-'', Rep 0 None space_chars, Grp 1 (Rep 1 (Some 5) upper_chars)]"

text \<open>A ticker: one to five capital letters.\<close>

definition ticker_shape :: "string \<Rightarrow> bool" where
  "ticker_shape u = (1 \<le> length u \<and> length u \<le> 5 \<and> set u \<subseteq> set upper_chars)"

definition extract_ticker :: "string \<Rightarrow> string option" where
  "extract_ticker asset_text =
     (case rx_search False ticker_bracketed asset_text of
        Some (r, g) \<Rightarrow> group g 1
      | None \<Rightarrow>
          (case rx_search False ticker_before_hyphen asset_text of
             Some (r, g) \<Rightarrow> group g 1
           | None \<Rightarrow>
               (case rx_search False ticker_after_hyphen asset_text of
                  Some (r, g) \<Rightarrow> group g 1
                | None \<Rightarrow> None)))"

definition identify_transaction_owner :: "string \<Rightarrow> string" where
  "identify_transaction_owner asset_text =
     (let t = py_lower asset_text in
      if list_ex (\<lambda>indicator. py_in indicator t)
           [''spouse'', ''husband'', ''wife'', ''joint'', ''spousal''] then ''spouse''
      else if list_ex (\<lambda>indicator. py_in indicator t)
           [''child'', ''son'', ''daughter'', ''dependent'', ''minor''] then ''child''
      else if list_ex (\<lambda>indicator. py_in indicator t)
           [''family'', ''trust'', ''estate''] then ''family''
      else ''self'')"

section \<open>ParserChain\<close>

text \<open>
  The markup parser is a library, not part of the program.  A parsed document is what the
  program asks of it: for every \<open>table\<close> element the \<open>tr\<close> rows found in it, each as the
  stripped texts of its \<open>td\<close>/\<open>th\<close> cells (\<open>get_text(strip=True)\<close>), and the stripped texts
  of the \<open>div\<close> elements whose class matches \<open>transaction|asset\<close>.
\<close>

type_synonym row = "string list"

type_synonym table = "row list"

record soup =
  tables :: "table list"
  transaction_divs :: "string list"

subsection \<open>StructuredTableParser\<close>

definition field_mappings :: "(string \<times> string list) list" where
  "field_mappings =
     [(''asset'', [''asset'', ''security'', ''name'', ''description'']),
      (''transaction_type'', [''transaction'', ''type'', ''action'']),
      (''date'', [''date'', ''transaction date'']),
      (''amount'', [''amount'', ''value'']),
      (''owner'', [''owner'']),
      (''ticker'', [''ticker'', ''symbol''])]"

text \<open>
  The inner loop of \<open>create_header_map\<close>: the index of the first header that contains one
  of the possible names, counting from \<open>idx\<close>.
\<close>

fun first_header :: "string list \<Rightarrow> string list \<Rightarrow> nat \<Rightarrow> nat option" where
  "first_header possible_names [] idx = None"
| "first_header possible_names (header # headers) idx =
     (if list_ex (\<lambda>n. py_in n header) possible_names then Some idx
      else first_header possible_names headers (Suc idx))"

definition create_header_map :: "string list \<Rightarrow> header_map" where
  "create_header_map headers =
     fold (\<lambda>(field, possible_names) header_map.
             case first_header possible_names headers 0 of
               Some idx \<Rightarrow> AList.update field idx header_map
             | None \<Rightarrow> header_map)
          field_mappings []"

definition ticker_value :: "string option \<Rightarrow> pyval" where
  "ticker_value t = (case t of None \<Rightarrow> NoneVal | Some s \<Rightarrow> Str s)"

text \<open>
  One \<open>if field in header_map:\<close> block that copies a cell: the read
  \<open>cell_texts[header_map[field]]\<close> raises \<open>IndexError\<close> when the row is shorter than the
  mapped column.
\<close>

definition copy_cell ::
  "string \<Rightarrow> string list \<Rightarrow> header_map \<Rightarrow> transaction \<Rightarrow> py_error + transaction" where
  "copy_cell field cell_texts header_map transaction =
     (case map_of header_map field of
        None \<Rightarrow> Inr transaction
      | Some idx \<Rightarrow>
          (case py_index cell_texts idx of
             Inl e \<Rightarrow> Inl e
           | Inr v \<Rightarrow> Inr (AList.update field (Str v) transaction)))"

definition copy_asset :: "string list \<Rightarrow> header_map \<Rightarrow> transaction \<Rightarrow> py_error + transaction" where
  "copy_asset cell_texts header_map transaction =
     (case map_of header_map ''asset'' of
        None \<Rightarrow> Inr transaction
      | Some idx \<Rightarrow>
          (case py_index cell_texts idx of
             Inl e \<Rightarrow> Inl e
           | Inr asset \<Rightarrow>
               Inr (AList.update ''ticker'' (ticker_value (extract_ticker asset))
                     (AList.update ''asset'' (Str asset) transaction))))"

definition copy_owner :: "string list \<Rightarrow> header_map \<Rightarrow> transaction \<Rightarrow> py_error + transaction" where
  "copy_owner cell_texts header_map transaction =
     (case map_of header_map ''owner'' of
        None \<Rightarrow> Inr transaction
      | Some idx \<Rightarrow>
          (case py_index cell_texts idx of
             Inl e \<Rightarrow> Inl e
           | Inr owner \<Rightarrow>
               Inr (AList.update ''relationship'' (Str (identify_transaction_owner owner))
                     (AList.update ''owner'' (Str owner) transaction))))"

definition extract_transaction_from_cells :: "row \<Rightarrow> header_map \<Rightarrow> py_error + transaction" where
  "extract_transaction_from_cells cell_texts header_map =
     (case copy_asset cell_texts header_map
             [(''raw_text'', Str (py_join '' | '' cell_texts)),
              (''cell_count'', Num (length cell_texts))] of
        Inl e \<Rightarrow> Inl e
      | Inr t1 \<Rightarrow>
     (case copy_cell ''transaction_type'' cell_texts header_map t1 of
        Inl e \<Rightarrow> Inl e
      | Inr t2 \<Rightarrow>
     (case copy_cell ''date'' cell_texts header_map t2 of
        Inl e \<Rightarrow> Inl e
      | Inr t3 \<Rightarrow>
     (case copy_cell ''amount'' cell_texts header_map t3 of
        Inl e \<Rightarrow> Inl e
      | Inr t4 \<Rightarrow> copy_owner cell_texts header_map t4))))"

text \<open>
  The loop over the data rows of one table.  The dictionary a row yields is never empty,
  so \<open>if transaction:\<close> always appends it.
\<close>

fun parse_rows :: "row list \<Rightarrow> header_map \<Rightarrow> transaction list \<Rightarrow> py_error + transaction list" where
  "parse_rows [] header_map acc = Inr acc"
| "parse_rows (cells # rows) header_map acc =
     (if length cells \<ge> 3 then
        (case extract_transaction_from_cells cells header_map of
           Inl e \<Rightarrow> Inl e
         | Inr transaction \<Rightarrow> parse_rows rows header_map (acc @ [transaction]))
      else parse_rows rows header_map acc)"

fun parse_table_list :: "table list \<Rightarrow> transaction list \<Rightarrow> py_error + transaction list" where
  "parse_table_list [] acc = Inr acc"
| "parse_table_list (rows # later) acc =
     (if length rows < 2 then parse_table_list later acc
      else
        (let header_map = create_header_map (map py_lower (rows ! 0)) in
         if header_map = [] then parse_table_list later acc
         else
           (case parse_rows (drop 1 rows) header_map acc of
              Inl e \<Rightarrow> Inl e
            | Inr acc' \<Rightarrow> parse_table_list later acc')))"

definition parse_tables :: "soup \<Rightarrow> py_error + transaction list" where
  "parse_tables sp = parse_table_list (tables sp) []"

subsection \<open>HeuristicBlockParser\<close>

definition is_likely_transaction :: "string \<Rightarrow> bool" where
  "is_likely_transaction text =
     list_ex (\<lambda>keyword. py_in (py_lower keyword) (py_lower text))
       [''purchase'', ''sale'', ''exchange'', ''asset'', ''security'', ''$'', ''ticker'']"

text \<open>\<^verbatim>\<open>([A-Za-z\s]+(?:Inc|Corp|LLC|Ltd|ETF)?)\<close>\<close>

definition asset_pattern :: regex where
  "asset_pattern =
     Grp 1 (Seq (Rep 1 None (upper_chars @ lower_chars @ space_chars))
                (Opt (alts [lit ''Inc'', lit ''Corp'', lit ''LLC'', lit ''Ltd'', lit ''ETF''])))"

text \<open>\<^verbatim>\<open>(Purchase|Sale|Exchange)\<close>\<close>

definition type_pattern :: regex where
  "type_pattern = Grp 1 (alts [lit ''Purchase'', lit ''Sale'', lit ''Exchange''])"

text \<open>\<^verbatim>\<open>(\d{1,2}/\d{1,2}/\d{4})\<close>\<close>

definition date_pattern :: regex where
  "date_pattern =
     Grp 1 (seqs [Rep 1 (Some 2) digit_chars, Cls ''/'', Rep 1 (Some 2) digit_chars, Cls ''/'',
                  Rep 4 (Some 4) digit_chars])"

text \<open>\<^verbatim>\<open>(\$[\d,]+-\$[\d,]+|\$[\d,]+)\<close>\<close>

definition amount_pattern :: regex where
  "amount_pattern =
     Grp 1 (Alt (seqs [Cls ''$'', Rep 1 None (digit_chars @ '',''), Cls ''-'', Cls ''$'',
                       Rep 1 None (digit_chars @ '','')])
                (seqs [Cls ''$'', Rep 1 None (digit_chars @ '','')]))"

definition parse_transaction_text :: "string \<Rightarrow> transaction option" where
  "parse_transaction_text text =
     (case (rx_search False asset_pattern text, rx_search True type_pattern text,
            rx_search False date_pattern text, rx_search False amount_pattern text) of
        (Some (r1, asset_match), Some (r2, type_match), Some (r3, date_match),
         Some (r4, amount_match)) \<Rightarrow>
          Some [(''asset'', Str (py_strip (group_text asset_match 1))),
                (''transaction_type'', Str (group_text type_match 1)),
                (''date'', Str (group_text date_match 1)),
                (''amount'', Str (group_text amount_match 1)),
                (''ticker'', ticker_value (extract_ticker (group_text asset_match 1))),
                (''owner'', Str ''self''),
                (''relationship'', Str ''self'')]
      | _ \<Rightarrow> None)"

text \<open>
  The loop of \<open>parse_alternative\<close> over the matching \<open>div\<close> texts.  A dictionary returned
  by \<open>parse_transaction_text\<close> has seven keys, so \<open>if transaction:\<close> fails for \<open>None\<close> only.
\<close>

fun parse_divs :: "string list \<Rightarrow> transaction list \<Rightarrow> transaction list" where
  "parse_divs [] acc = acc"
| "parse_divs (text # divs) acc =
     (if is_likely_transaction text then
        (case parse_transaction_text text of
           Some transaction \<Rightarrow> parse_divs divs (acc @ [transaction])
         | None \<Rightarrow> parse_divs divs acc)
      else parse_divs divs acc)"

definition parse_alternative :: "soup \<Rightarrow> transaction list" where
  "parse_alternative sp = parse_divs (transaction_divs sp) []"

subsection \<open>RegexFallbackParser\<close>

text \<open>
  \<^verbatim>\<open>([A-Za-z\s]+)\s*(Purchase|Sale|Exchange)\s*(\d{1,2}/\d{1,2}/\d{4})\s*(\$[\d,]+-\$[\d,]+|\$[\d,]+)\<close>
\<close>

definition transaction_pattern :: regex where
  "transaction_pattern =
     seqs [Grp 1 (Rep 1 None (upper_chars @ lower_chars @ space_chars)),
           Rep 0 None space_chars,
           Grp 2 (alts [lit ''Purchase'', lit ''Sale'', lit ''Exchange'']),
           Rep 0 None space_chars,
           Grp 3 (seqs [Rep 1 (Some 2) digit_chars, Cls ''/'', Rep 1 (Some 2) digit_chars,
                        Cls ''/'', Rep 4 (Some 4) digit_chars]),
           Rep 0 None space_chars,
           Grp 4 (Alt (seqs [Cls ''$'', Rep 1 None (digit_chars @ '',''), Cls ''-'', Cls ''$'',
                             Rep 1 None (digit_chars @ '','')])
                      (seqs [Cls ''$'', Rep 1 None (digit_chars @ '','')]))]"

definition regex_transaction :: "captures \<Rightarrow> transaction" where
  "regex_transaction m =
     [(''asset'', Str (py_strip (group_text m 1))),
      (''transaction_type'', Str (group_text m 2)),
      (''date'', Str (group_text m 3)),
      (''amount'', Str (group_text m 4)),
      (''ticker'', ticker_value (extract_ticker (group_text m 1))),
      (''owner'', Str ''self''),
      (''relationship'', Str ''self'')]"

definition parse_with_regex :: "string \<Rightarrow> transaction list" where
  "parse_with_regex html_content =
     map regex_transaction (rx_findall True transaction_pattern html_content)"

subsection \<open>The keys of a transaction\<close>


text \<open>The keys of the dictionaries that the second and the third strategy build, in order.\<close>

definition tier_keys :: "string list" where
  "tier_keys = [''asset'', ''transaction_type'', ''date'', ''amount'', ''ticker'', ''owner'', ''relationship'']"

subsection \<open>The cascade\<close>

text \<open>
  \<open>extract_transactions_with_fallback\<close>, with the markup parser as the parameter \<open>bs\<close>.
  The result carries the lines the function logs, oldest first: one line before the second
  strategy is run and one before the third.
\<close>

definition extract_transactions_with_fallback ::
  "(string \<Rightarrow> soup) \<Rightarrow> string \<Rightarrow> string list \<times> (py_error + transaction list)" where
  "extract_transactions_with_fallback bs html_content =
     (let sp = bs html_content in
      case parse_tables sp of
        Inl e \<Rightarrow> ([], Inl e)
      | Inr t1 \<Rightarrow>
          if t1 \<noteq> [] then ([], Inr t1)
          else
            (let t2 = parse_alternative sp;
                 log2 = [''Standard parsing failed, trying alternative methods...'']
             in if t2 \<noteq> [] then (log2, Inr t2)
                else (log2 @ [''Alternative parsing failed, trying regex extraction...''],
                      Inr (parse_with_regex html_content))))"

section \<open>The outside world\<close>

text \<open>
  The browser driver, the HTTP session and the file system are outside the program.  Each
  call to them is answered by an oracle that is asked with the number of calls made so far
  (\<open>clock\<close>), so that two calls with the same arguments may be answered differently.  An
  answer \<open>False\<close> or \<open>None\<close> of a call that can fail stands for "raises an exception".  The
  world records what the program did, oldest first: \<open>EstablishSession\<close> is the entry
  into \<open>establish_session\<close> or into the strategies of \<open>establish_session_once\<close> (the
  line \<open>Establishing session with Senate website...\<close> of the log), \<open>Attempt n\<close> the
  line \<open>Attempt n for name\<close> that opens a pass through the retry loop, \<open>DriverGet\<close>,
  \<open>Click\<close>, \<open>HttpGet\<close> and \<open>HttpPost\<close> the calls of the browser and of the HTTP
  session, and \<open>Sleep n\<close> a call of \<open>time.sleep(n)\<close>.  Other lines of the log are
  not recorded.
\<close>

datatype event =
    EstablishSession
  | Attempt nat
  | DriverGet string
  | Click
  | HttpGet string
  | HttpPost string
  | Sleep int

text \<open>A \<open>requests\<close> response: \<open>status_code\<close> and \<open>text\<close>.\<close>

record response =
  status_code :: nat
  resp_text :: string

record env =
  driver_get :: "nat \<Rightarrow> string \<Rightarrow> bool"
  driver_title :: "nat \<Rightarrow> string option"
  driver_page_source :: "nat \<Rightarrow> string option"
  wait_clickable :: "nat \<Rightarrow> bool"
  element_click :: "nat \<Rightarrow> bool"
  driver_get_cookies :: "nat \<Rightarrow> (string \<times> string) list option"
  session_get :: "nat \<Rightarrow> string \<Rightarrow> response option"
  session_post :: "nat \<Rightarrow> string \<Rightarrow> response option"
  agreement_form_action :: "string \<Rightarrow> string option option"
  urljoin :: "string \<Rightarrow> string \<Rightarrow> string"
  write_file :: "nat \<Rightarrow> string \<Rightarrow> string \<Rightarrow> bool"

record world =
  clock :: nat
  events :: "event list"
  cookies :: "(string \<times> string) list"
  session_established :: bool

definition emit :: "event \<Rightarrow> world \<Rightarrow> world" where
  "emit e w = w\<lparr>events := events w @ [e]\<rparr>"

definition tick :: "world \<Rightarrow> world" where
  "tick w = w\<lparr>clock := Suc (clock w)\<rparr>"

definition base_url :: string where
  "base_url = ''https://efdsearch.senate.gov''"

section \<open>SessionManager\<close>

text \<open>
  Strategy 1 of \<open>establish_session\<close>, up to the \<open>return True\<close>: load the gate page, wait
  for the consent checkbox, click it, copy the browser's cookies into the HTTP session.
  The result is \<open>False\<close> when one of the calls raised, which the \<open>except\<close> clause absorbs.
\<close>

definition render_consent :: "env \<Rightarrow> world \<Rightarrow> bool \<times> world" where
  "render_consent en w =
     (let w1 = tick (emit (DriverGet (base_url @ ''/search/'')) w) in
      if \<not> driver_get en (clock w) (base_url @ ''/search/'') then (False, w1)
      else
        (let w2 = emit (Sleep 2) w1; w3 = tick w2 in
         if \<not> wait_clickable en (clock w2) then (False, w3)
         else
           (let w4 = tick (emit Click w3) in
            if \<not> element_click en (clock w3) then (False, w4)
            else
              (case driver_get_cookies en (clock w4) of
                 None \<Rightarrow> (False, tick w4)
               | Some cs \<Rightarrow>
                   (True, (tick w4)\<lparr>cookies :=
                             fold (\<lambda>(n, v) jar. AList.update n v jar) cs (cookies w4)\<rparr>)))))"

text \<open>
  Strategy 2: request the gate page directly and submit the agreement form.  \<open>join\<close> builds
  the address of the form from the base address and the form's action.
\<close>

definition direct_consent :: "env \<Rightarrow> (string \<Rightarrow> string \<Rightarrow> string) \<Rightarrow> world \<Rightarrow> bool \<times> world" where
  "direct_consent en join w =
     (let w1 = tick (emit (HttpGet (base_url @ ''/search/'')) w) in
      case session_get en (clock w) (base_url @ ''/search/'') of
        None \<Rightarrow> (False, w1)
      | Some resp \<Rightarrow>
          if py_in ''agree_statement'' (resp_text resp) then
            (case agreement_form_action en (resp_text resp) of
               Some (Some action) \<Rightarrow>
                 if action \<noteq> [] then
                   (let w2 = tick (emit (HttpPost (join base_url action)) w1) in
                    case session_post en (clock w1) (join base_url action) of
                      None \<Rightarrow> (False, w2)
                    | Some resp2 \<Rightarrow> (status_code resp2 = 200, w2))
                 else (False, w1)
             | _ \<Rightarrow> (False, w1))
          else (False, w1))"

definition establish_session :: "env \<Rightarrow> world \<Rightarrow> bool \<times> world" where
  "establish_session en w =
     (case render_consent en (emit EstablishSession w) of
        (True, w1) \<Rightarrow> (True, w1)
      | (False, w1) \<Rightarrow> direct_consent en (urljoin en) w1)"

text \<open>
  \<open>establish_session_once\<close> of the subclass: the same two strategies (the form address is
  the plain concatenation here), behind the flag \<open>session_established\<close>.
\<close>

definition establish_session_once :: "env \<Rightarrow> world \<Rightarrow> bool \<times> world" where
  "establish_session_once en w =
     (if \<not> session_established w then
        (case render_consent en (emit EstablishSession w) of
           (True, w1) \<Rightarrow> (True, w1\<lparr>session_established := True\<rparr>)
         | (False, w1) \<Rightarrow>
             (case direct_consent en (\<lambda>b a. b @ a) w1 of
                (True, w2) \<Rightarrow> (True, w2\<lparr>session_established := True\<rparr>)
              | (False, w2) \<Rightarrow> (False, w2)))
      else (True, w))"

section \<open>Fetcher\<close>

text \<open>
  \<open>time.sleep\<close> turns its argument into a signed 64-bit count of nanoseconds and raises
  \<open>OverflowError\<close> when the count does not fit.  The constant pauses of 2 and 3 seconds fit.
\<close>

definition sleep_overflows :: "int \<Rightarrow> bool" where
  "sleep_overflows secs = (secs * 10 ^ 9 > 2 ^ 63 - 1)"

text \<open>
  The result of one pass through the body of the loop, and of the loop: \<open>Inr (Some html)\<close>
  is \<open>return html\<close>, \<open>Inr None\<close> means that the loop goes on with the next attempt (for
  the loop: \<open>return None\<close>), and \<open>Inl e\<close> is an exception that leaves the function.

  The \<open>except\<close> clause of the retry loop: back off unless this was the last attempt.  The
  pause \<open>time.sleep(2 ** attempt)\<close> stands inside the clause, so its \<open>OverflowError\<close> is
  not caught.
\<close>

definition on_exception :: "int \<Rightarrow> nat \<Rightarrow> world \<Rightarrow> (py_error + string option) \<times> world" where
  "on_exception max_retries attempt w =
     (if int attempt < max_retries - 1 then
        (if sleep_overflows (2 ^ attempt) then (Inl OverflowError, w)
         else (Inr None, emit (Sleep (2 ^ attempt)) w))
      else (Inr None, w))"

definition read_page_source ::
  "env \<Rightarrow> int \<Rightarrow> nat \<Rightarrow> world \<Rightarrow> (py_error + string option) \<times> world" where
  "read_page_source en max_retries attempt w =
     (case driver_page_source en (clock w) of
        None \<Rightarrow> on_exception max_retries attempt (tick w)
      | Some html_content \<Rightarrow> (Inr (Some html_content), tick w))"

definition render_attempt ::
  "env \<Rightarrow> string \<Rightarrow> int \<Rightarrow> nat \<Rightarrow> world \<Rightarrow> (py_error + string option) \<times> world" where
  "render_attempt en url max_retries attempt w =
     (let w1 = tick (emit (DriverGet url) w) in
      if \<not> driver_get en (clock w) url then on_exception max_retries attempt w1
      else
        (let w2 = emit (Sleep 3) w1; w3 = tick w2 in
         case driver_title en (clock w2) of
           None \<Rightarrow> on_exception max_retries attempt w3
         | Some title \<Rightarrow>
             if py_in ''eFD: Home'' title then
               (let w4 = snd (establish_session en w3);
                    w5 = tick (emit (DriverGet url) w4) in
                if \<not> driver_get en (clock w4) url then on_exception max_retries attempt w5
                else
                  (let w6 = emit (Sleep 3) w5; w7 = tick w6 in
                   case driver_title en (clock w6) of
                     None \<Rightarrow> on_exception max_retries attempt w7
                   | Some title2 \<Rightarrow>
                       if py_in ''eFD: Home'' title2 then (Inr None, w7)
                       else read_page_source en max_retries attempt w7))
             else read_page_source en max_retries attempt w3))"

definition direct_attempt ::
  "env \<Rightarrow> string \<Rightarrow> int \<Rightarrow> nat \<Rightarrow> world \<Rightarrow> (py_error + string option) \<times> world" where
  "direct_attempt en url max_retries attempt w =
     (let w1 = tick (emit (HttpGet url) w) in
      case session_get en (clock w) url of
        None \<Rightarrow> on_exception max_retries attempt w1
      | Some resp \<Rightarrow>
          if status_code resp = 200 then (Inr (Some (resp_text resp)), w1) else (Inr None, w1))"

definition attempt_body ::
  "env \<Rightarrow> string \<Rightarrow> int \<Rightarrow> nat \<Rightarrow> world \<Rightarrow> (py_error + string option) \<times> world" where
  "attempt_body en url max_retries attempt w =
     (if attempt < 3 then render_attempt en url max_retries attempt (emit (Attempt (attempt + 1)) w)
      else direct_attempt en url max_retries attempt (emit (Attempt (attempt + 1)) w))"

text \<open>\<open>for attempt in range(max_retries)\<close>, and the \<open>return None\<close> after the loop.\<close>

function download_loop ::
  "env \<Rightarrow> string \<Rightarrow> int \<Rightarrow> nat \<Rightarrow> world \<Rightarrow> (py_error + string option) \<times> world" where
  "download_loop en url max_retries attempt w =
     (if int attempt < max_retries then
        (case attempt_body en url max_retries attempt w of
           (Inl e, w1) \<Rightarrow> (Inl e, w1)
         | (Inr (Some html_content), w1) \<Rightarrow> (Inr (Some html_content), w1)
         | (Inr None, w1) \<Rightarrow> download_loop en url max_retries (Suc attempt) w1)
      else (Inr None, w))"
  by pat_completeness auto
termination
  by (relation "measure (\<lambda>(en, url, max_retries, attempt, w). nat (max_retries - int attempt))") auto

type_synonym report_data = "(string \<times> string) list"

definition download_report_with_enhanced_retry ::
  "env \<Rightarrow> report_data \<Rightarrow> int \<Rightarrow> world \<Rightarrow> (py_error + string option) \<times> world" where
  "download_report_with_enhanced_retry en rd max_retries w =
     (case map_of rd ''link'' of
        None \<Rightarrow> (Inl KeyError, w)
      | Some url \<Rightarrow>
          (case map_of rd ''name'' of
             None \<Rightarrow> (Inl KeyError, w)
           | Some n \<Rightarrow> download_loop en url max_retries 0 w))"

text \<open>
  The attempts made so far: the passes through the body of the loop, each of which starts
  by logging \<open>Attempt n\<close>.
\<close>

fun is_attempt :: "event \<Rightarrow> bool" where
  "is_attempt (Attempt n) = True"
| "is_attempt e = False"

definition attempts_made :: "world \<Rightarrow> nat" where
  "attempts_made w = length (filter is_attempt (events w))"

fun is_sleep :: "event \<Rightarrow> bool" where
  "is_sleep (Sleep n) = True"
| "is_sleep e = False"

text \<open>Events among which no session is started and no attempt begins.\<close>

definition quiet :: "event list \<Rightarrow> bool" where
  "quiet es = (EstablishSession \<notin> set es \<and> (\<forall>e \<in> set es. \<not> is_attempt e))"

text \<open>A world in which nothing has happened yet, and one in which every call fails.\<close>

definition world0 :: world where
  "world0 = \<lparr>clock = 0, events = [], cookies = [], session_established = False\<rparr>"

definition env_all_fail :: env where
  "env_all_fail =
     \<lparr>driver_get = (\<lambda>k u. False),
      driver_title = (\<lambda>k. None),
      driver_page_source = (\<lambda>k. None),
      wait_clickable = (\<lambda>k. False),
      element_click = (\<lambda>k. False),
      driver_get_cookies = (\<lambda>k. None),
      session_get = (\<lambda>k u. None),
      session_post = (\<lambda>k u. None),
      agreement_form_action = (\<lambda>t. None),
      urljoin = (\<lambda>b a. b @ a),
      write_file = (\<lambda>k f c. False)\<rparr>"

text \<open>
  An environment in which the browser works: every page loads and is titled as a report,
  the consent checkbox can be clicked, and files can be written.
\<close>

definition env_render_ok :: env where
  "env_render_ok =
     env_all_fail
       \<lparr>driver_get := (\<lambda>k u. True),
        driver_title := (\<lambda>k. Some ''Periodic Transaction Report''),
        driver_page_source := (\<lambda>k. Some ''<html>No transactions</html>''),
        wait_clickable := (\<lambda>k. True),
        element_click := (\<lambda>k. True),
        driver_get_cookies := (\<lambda>k. Some [(''sessionid'', ''abc'')]),
        write_file := (\<lambda>k f c. True)\<rparr>"

text \<open>An environment in which the browser works but every page is the portal's home page.\<close>

definition env_always_home :: env where
  "env_always_home = env_render_ok\<lparr>driver_title := (\<lambda>k. Some ''eFD: Home'')\<rparr>"

text \<open>
  The world of a render attempt after its first fetch of the document, and the world after
  the fetch is repeated from \<open>w\<close>.
\<close>

definition after_first_fetch :: "string \<Rightarrow> nat \<Rightarrow> world \<Rightarrow> world" where
  "after_first_fetch url attempt w =
     tick (emit (Sleep 3) (tick (emit (DriverGet url) (emit (Attempt (attempt + 1)) w))))"

definition after_refetch :: "string \<Rightarrow> world \<Rightarrow> world" where
  "after_refetch url w = tick (emit (Sleep 3) (tick (emit (DriverGet url) w)))"

section \<open>RecordNormalizer\<close>

record report_record =
  name :: string
  link :: string
  date_filed :: "string option"
  office :: "string option"
  report_type :: "string option"
  transactions :: "transaction list"
  transaction_count :: nat
  extraction_date :: string
  extraction_success :: bool

text \<open>
  The dictionary \<open>report_result\<close> that \<open>process_report\<close> builds; \<open>now\<close> is
  \<open>datetime.now().isoformat()\<close>.  \<open>n\<close> and \<open>url\<close> are \<open>report_data['name']\<close> and
  \<open>report_data['link']\<close>, which are present once the download has returned.
\<close>

definition report_result ::
  "string \<Rightarrow> string \<Rightarrow> report_data \<Rightarrow> transaction list \<Rightarrow> string \<Rightarrow> string \<Rightarrow> report_record" where
  "report_result n url rd ts html_content now =
     \<lparr>name = n,
      link = url,
      date_filed = map_of rd ''date_filed'',
      office = map_of rd ''office'',
      report_type = map_of rd ''report_type'',
      transactions = ts,
      transaction_count = length ts,
      extraction_date = now,
      extraction_success = (length ts > 0 \<or> py_in ''No transactions'' html_content)\<rparr>"

text \<open>The path of the copy of the raw document: the name with spaces replaced.\<close>

definition html_file :: "string \<Rightarrow> string" where
  "html_file n =
     ''C:'' @ [CHR 0x5C] @ ''EMPIRE'' @ [CHR 0x5C] @ ''SATORI_Scraper'' @ [CHR 0x5C] @ ''data''
       @ [CHR 0x5C] @ ''raw'' @ [CHR 0x5C] @ ''senate'' @ [CHR 0x5C]
       @ map (\<lambda>c. if c = CHR '' '' then CHR ''_'' else c) n @ ''.html''"

text \<open>
  \<open>process_report\<close>: \<open>Inr None\<close> is \<open>return None\<close>, taken when the download gave \<open>None\<close>
  or an empty document.  The parser's exception is not caught, and neither is a failure
  to write the copy of the raw document.
\<close>

definition process_report ::
  "env \<Rightarrow> (string \<Rightarrow> soup) \<Rightarrow> string \<Rightarrow> report_data \<Rightarrow> world
     \<Rightarrow> (py_error + report_record option) \<times> world" where
  "process_report en bs now rd w =
     (case map_of rd ''name'' of
        None \<Rightarrow> (Inl KeyError, w)
      | Some n \<Rightarrow>
          (case download_report_with_enhanced_retry en rd 5 w of
             (Inl e, w1) \<Rightarrow> (Inl e, w1)
           | (Inr None, w1) \<Rightarrow> (Inr None, w1)
           | (Inr (Some html_content), w1) \<Rightarrow>
               if html_content = [] then (Inr None, w1)
               else
                 (case snd (extract_transactions_with_fallback bs html_content) of
                    Inl e \<Rightarrow> (Inl e, w1)
                  | Inr ts \<Rightarrow>
                      if write_file en (clock w1) (html_file n) html_content
                      then (Inr (Some (report_result n (case map_of rd ''link'' of Some u \<Rightarrow> u | None \<Rightarrow> [])
                                          rd ts html_content now)), tick w1)
                      else (Inl OSError, tick w1))))"

section \<open>Strings and patterns: basic facts\<close>

lemma startswith_iff: "startswith a s \<longleftrightarrow> (\<exists>post. s = a @ post)"
  by (induction a s rule: startswith.induct) auto

lemma py_in_iff: "py_in sub s \<longleftrightarrow> (\<exists>pre post. s = pre @ sub @ post)"
proof (induction s)
  case Nil
  then show ?case by auto
next
  case (Cons c cs)
  have "(\<exists>pre post. c # cs = pre @ sub @ post) \<longleftrightarrow>
        (\<exists>post. c # cs = sub @ post) \<or> (\<exists>pre post. cs = pre @ sub @ post)"
  proof
    assume "\<exists>pre post. c # cs = pre @ sub @ post"
    then obtain pre post where e: "c # cs = pre @ sub @ post" by blast
    show "(\<exists>post. c # cs = sub @ post) \<or> (\<exists>pre post. cs = pre @ sub @ post)"
    proof (cases pre)
      case Nil
      with e show ?thesis by auto
    next
      case (Cons a pre')
      with e have "cs = pre' @ sub @ post" by simp
      then show ?thesis by blast
    qed
  next
    assume "(\<exists>post. c # cs = sub @ post) \<or> (\<exists>pre post. cs = pre @ sub @ post)"
    then show "\<exists>pre post. c # cs = pre @ sub @ post"
    proof
      assume "\<exists>post. c # cs = sub @ post"
      then obtain post where "c # cs = [] @ sub @ post" by auto
      then show ?thesis by blast
    next
      assume "\<exists>pre post. cs = pre @ sub @ post"
      then obtain pre post where "c # cs = (c # pre) @ sub @ post" by auto
      then show ?thesis by blast
    qed
  qed
  with Cons show ?case by (simp add: startswith_iff)
qed

lemma rx_search_in_match:
  "rx_search ic p s = Some m \<Longrightarrow> \<exists>pre s'. s = pre @ s' \<and> rx_match ic p s' [] \<noteq> [] \<and> m = hd (rx_match ic p s' [])"
proof (induction s)
  case Nil
  then show ?case by (auto split: list.splits)
next
  case (Cons c cs)
  show ?case
  proof (cases "rx_match ic p (c # cs) []")
    case Nil
    with Cons.prems have "rx_search ic p cs = Some m" by simp
    from Cons.IH[OF this] obtain pre s' where "cs = pre @ s'" "rx_match ic p s' [] \<noteq> []" "m = hd (rx_match ic p s' [])" by blast
    then have "c # cs = (c # pre) @ s'" by simp
    with \<open>rx_match ic p s' [] \<noteq> []\<close> \<open>m = hd (rx_match ic p s' [])\<close> show ?thesis by blast
  next
    case (Cons m' ms)
    with Cons.prems have "m = m'" by simp
    with Cons have "c # cs = [] @ (c # cs) \<and> rx_match ic p (c # cs) [] \<noteq> [] \<and> m = hd (rx_match ic p (c # cs) [])" by simp
    then show ?thesis by blast
  qed
qed

lemma seqs_Nil_iff: "(r, g) \<in> set (rx_match ic (seqs []) s g0) \<longleftrightarrow> r = s \<and> g = g0"
  by (auto simp: seqs_def)

lemma seqs_Cons_iff:
  "(r, g) \<in> set (rx_match ic (seqs (a # rs)) s g0) \<longleftrightarrow>
     (\<exists>r1 g1. (r1, g1) \<in> set (rx_match ic a s g0) \<and> (r, g) \<in> set (rx_match ic (seqs rs) r1 g1))"
  by (auto simp: seqs_def)

lemma take_run:
  "k \<le> length (takeWhile P s) \<Longrightarrow> set (take k s) \<subseteq> {c. P c} \<and> length (take k s) = k"
proof -
  assume k: "k \<le> length (takeWhile P s)"
  have "take k s = take k (takeWhile P s @ dropWhile P s)" by simp
  also have "\<dots> = take k (takeWhile P s)" using k by (simp del: takeWhile_dropWhile_id)
  finally have e: "take k s = take k (takeWhile P s)" .
  have "set (take k (takeWhile P s)) \<subseteq> set (takeWhile P s)" by (rule set_take_subset)
  moreover have "set (takeWhile P s) \<subseteq> {c. P c}" by (auto dest: set_takeWhileD)
  moreover have "length (takeWhile P s) \<le> length s" by (rule length_takeWhile_le)
  ultimately show ?thesis using e k by auto
qed

lemma ticker_group_shape:
  assumes "(r, g) \<in> set (rx_match False (Grp i (Rep 1 (Some 5) upper_chars)) s g0)"
  shows "\<exists>u. g = (i, u) # g0 \<and> s = u @ r \<and> 1 \<le> length u \<and> length u \<le> 5 \<and> set u \<subseteq> set upper_chars"
proof -
  let ?P = "cls_member False upper_chars"
  let ?run = "length (takeWhile ?P s)"
  from assms have "\<exists>k. 1 \<le> k \<and> k < Suc (min 5 ?run) \<and> r = drop k s
      \<and> g = (i, take (length s - length (drop k s)) s) # g0"
    by (auto simp: Let_def simp del: upt_Suc)
  then obtain k where k0: "1 \<le> k" "k < Suc (min 5 ?run)" and r: "r = drop k s"
    and g: "g = (i, take (length s - length (drop k s)) s) # g0"
    by blast
  from k0 have k: "1 \<le> k" "k \<le> min 5 ?run" by arith+
  have le: "?run \<le> length s" by (rule length_takeWhile_le)
  with k have "length s - length (drop k s) = k" by simp
  with g have g': "g = (i, take k s) # g0" by simp
  from k have "k \<le> ?run" by simp
  from take_run[OF this] have "set (take k s) \<subseteq> {c. ?P c}" "length (take k s) = k" by auto
  moreover have "{c. ?P c} = set upper_chars" by (auto simp: cls_member_def)
  moreover have "s = take k s @ r" using r by simp
  ultimately show ?thesis using g' k by auto
qed

lemma rx_match_Cls_caps: "(r, g) \<in> set (rx_match ic (Cls cs) s g0) \<Longrightarrow> g = g0"
  by (auto split: list.splits if_splits)

lemma rx_match_Rep_caps: "(r, g) \<in> set (rx_match ic (Rep m n cs) s g0) \<Longrightarrow> g = g0"
  by (auto simp: Let_def simp del: upt_Suc)

lemma bracketed_shape:
  assumes "(r, g) \<in> set (rx_match False ticker_bracketed s [])"
  shows "\<exists>u. map_of g 1 = Some u \<and> ticker_shape u"
proof -
  from assms obtain r1 g1 r2 g2 where
    b: "(r2, g2) \<in> set (rx_match False (Grp 1 (Rep 1 (Some 5) upper_chars)) r1 g1)"
    and c: "(r, g) \<in> set (rx_match False (Cls '')]'') r2 g2)"
    unfolding ticker_bracketed_def seqs_Cons_iff seqs_Nil_iff by blast
  from c have "g = g2" by (rule rx_match_Cls_caps)
  with ticker_group_shape[OF b] show ?thesis by (auto simp: ticker_shape_def)
qed

lemma before_hyphen_shape:
  assumes "(r, g) \<in> set (rx_match False ticker_before_hyphen s [])"
  shows "\<exists>u. map_of g 1 = Some u \<and> ticker_shape u"
proof -
  from assms obtain r1 g1 r2 g2 where
    b: "(r1, g1) \<in> set (rx_match False (Grp 1 (Rep 1 (Some 5) upper_chars)) s [])"
    and a: "(r2, g2) \<in> set (rx_match False (Rep 0 None space_chars) r1 g1)"
    and c: "(r, g) \<in> set (rx_match False (Cls ''-'') r2 g2)"
    unfolding ticker_before_hyphen_def seqs_Cons_iff seqs_Nil_iff by blast
  from c have "g = g2" by (rule rx_match_Cls_caps)
  moreover from a have "g2 = g1" by (rule rx_match_Rep_caps)
  ultimately show ?thesis using ticker_group_shape[OF b] by (auto simp: ticker_shape_def)
qed

lemma after_hyphen_shape:
  assumes "(r, g) \<in> set (rx_match False ticker_after_hyphen s [])"
  shows "\<exists>u. map_of g 1 = Some u \<and> ticker_shape u"
proof -
  from assms obtain r2 g2 where
    c: "(r, g) \<in> set (rx_match False (Grp 1 (Rep 1 (Some 5) upper_chars)) r2 g2)"
    unfolding ticker_after_hyphen_def seqs_Cons_iff seqs_Nil_iff by blast
  from ticker_group_shape[OF c] show ?thesis by (auto simp: ticker_shape_def)
qed

lemma rx_search_member:
  assumes "rx_search ic p t = Some (r, g)"
  shows "\<exists>s. (r, g) \<in> set (rx_match ic p s [])"
proof -
  from rx_search_in_match[OF assms] obtain pre s' where
    "rx_match ic p s' [] \<noteq> []" "(r, g) = hd (rx_match ic p s' [])" by blast
  then have "(r, g) \<in> set (rx_match ic p s' [])" by simp
  then show ?thesis ..
qed

lemma extract_ticker_shape:
  assumes "extract_ticker t = Some u"
  shows "ticker_shape u"
proof (cases "rx_search False ticker_bracketed t")
  case (Some m)
  obtain r g where m: "m = (r, g)" by (cases m)
  with Some assms have "map_of g 1 = Some u" by (simp add: extract_ticker_def group_def)
  moreover from rx_search_member Some m obtain s where "(r, g) \<in> set (rx_match False ticker_bracketed s [])"
    by blast
  ultimately show ?thesis using bracketed_shape by fastforce
next
  case n1: None
  show ?thesis
  proof (cases "rx_search False ticker_before_hyphen t")
    case (Some m)
    obtain r g where m: "m = (r, g)" by (cases m)
    with Some n1 assms have "map_of g 1 = Some u" by (simp add: extract_ticker_def group_def)
    moreover from rx_search_member Some m obtain s where
      "(r, g) \<in> set (rx_match False ticker_before_hyphen s [])" by blast
    ultimately show ?thesis using before_hyphen_shape by fastforce
  next
    case n2: None
    show ?thesis
    proof (cases "rx_search False ticker_after_hyphen t")
      case (Some m)
      obtain r g where m: "m = (r, g)" by (cases m)
      with Some n1 n2 assms have "map_of g 1 = Some u" by (simp add: extract_ticker_def group_def)
      moreover from rx_search_member Some m obtain s where
        "(r, g) \<in> set (rx_match False ticker_after_hyphen s [])" by blast
      ultimately show ?thesis using after_hyphen_shape by fastforce
    next
      case None
      with n1 n2 assms show ?thesis by (simp add: extract_ticker_def)
    qed
  qed
qed


section \<open>FieldExtractors: the order of the ticker patterns\<close>

text \<open>
  C8.  \<open>extract_ticker\<close> answers with group 1 of the first of its three patterns that is
  found in the text, in the order bracketed code, code before a hyphen, code after a hyphen,
  and with \<open>None\<close> when none is found; whatever it returns is one to five capital letters.
  On \<open>Apple Inc (AAPL)\<close> it returns \<open>AAPL\<close>, on \<open>Some Fund - VOO\<close> it returns \<open>VOO\<close>,
  on \<open>Unrelated text\<close> it returns \<open>None\<close>.  Where several patterns occur the earlier
  pattern wins, wherever it stands in the text.
\<close>

theorem extract_ticker_first_match:
  "(\<forall>r g. rx_search False ticker_bracketed t = Some (r, g) \<longrightarrow> extract_ticker t = group g 1)
   \<and> (\<forall>r g. rx_search False ticker_bracketed t = None
          \<and> rx_search False ticker_before_hyphen t = Some (r, g) \<longrightarrow> extract_ticker t = group g 1)
   \<and> (\<forall>r g. rx_search False ticker_bracketed t = None
          \<and> rx_search False ticker_before_hyphen t = None
          \<and> rx_search False ticker_after_hyphen t = Some (r, g) \<longrightarrow> extract_ticker t = group g 1)
   \<and> (rx_search False ticker_bracketed t = None
          \<and> rx_search False ticker_before_hyphen t = None
          \<and> rx_search False ticker_after_hyphen t = None \<longrightarrow> extract_ticker t = None)
   \<and> (\<forall>u. extract_ticker t = Some u \<longrightarrow> ticker_shape u)
   \<and> extract_ticker ''Apple Inc (AAPL)'' = Some ''AAPL''
   \<and> extract_ticker ''Some Fund - VOO'' = Some ''VOO''
   \<and> extract_ticker ''Unrelated text'' = None
   \<and> extract_ticker ''AB - CD (EF)'' = Some ''EF''
   \<and> extract_ticker ''AB - CD'' = Some ''AB''"
proof -
  have order: "(\<forall>r g. rx_search False ticker_bracketed t = Some (r, g) \<longrightarrow> extract_ticker t = group g 1)
   \<and> (\<forall>r g. rx_search False ticker_bracketed t = None
          \<and> rx_search False ticker_before_hyphen t = Some (r, g) \<longrightarrow> extract_ticker t = group g 1)
   \<and> (\<forall>r g. rx_search False ticker_bracketed t = None
          \<and> rx_search False ticker_before_hyphen t = None
          \<and> rx_search False ticker_after_hyphen t = Some (r, g) \<longrightarrow> extract_ticker t = group g 1)
   \<and> (rx_search False ticker_bracketed t = None
          \<and> rx_search False ticker_before_hyphen t = None
          \<and> rx_search False ticker_after_hyphen t = None \<longrightarrow> extract_ticker t = None)"
    by (simp add: extract_ticker_def)
  have shape: "\<forall>u. extract_ticker t = Some u \<longrightarrow> ticker_shape u"
    by (simp add: extract_ticker_shape)
  have e1: "extract_ticker ''Apple Inc (AAPL)'' = Some ''AAPL''" by code_simp
  have e2: "extract_ticker ''Some Fund - VOO'' = Some ''VOO''" by code_simp
  have e3: "extract_ticker ''Unrelated text'' = None" by code_simp
  have e4: "extract_ticker ''AB - CD (EF)'' = Some ''EF''" by code_simp
  have e5: "extract_ticker ''AB - CD'' = Some ''AB''" by code_simp
  from order shape e1 e2 e3 e4 e5 show ?thesis by blast
qed

theorem extract_ticker_first_match_witness:
  "rx_search False ticker_bracketed ''Some Fund - VOO'' = None
   \<and> rx_search False ticker_before_hyphen ''Some Fund - VOO'' = None
   \<and> rx_search False ticker_after_hyphen ''Some Fund - VOO'' = Some ([], [(1, ''VOO'')])
   \<and> extract_ticker ''Some Fund - VOO'' = group [(1, ''VOO'')] 1
   \<and> ticker_shape ''VOO''"
proof -
  have h1: "rx_search False ticker_bracketed ''Some Fund - VOO'' = None" by code_simp
  have h2: "rx_search False ticker_before_hyphen ''Some Fund - VOO'' = None" by code_simp
  have h3: "rx_search False ticker_after_hyphen ''Some Fund - VOO'' = Some ([], [(1, ''VOO'')])"
    by code_simp
  have g: "group [(1, ''VOO'')] 1 = Some ''VOO''" by (simp add: group_def)
  from extract_ticker_first_match [of "''Some Fund - VOO''"] h1 h2 h3
  have "extract_ticker ''Some Fund - VOO'' = group [(1, ''VOO'')] 1" by blast
  moreover from extract_ticker_first_match [of "''Some Fund - VOO''"] this g
  have "ticker_shape ''VOO''" by simp
  ultimately show ?thesis using h1 h2 h3 by simp
qed

section \<open>StructuredTableParser on concrete tables\<close>

text \<open>
  C3.  The table with the header row \<open>First Name, Last Name, Asset, Transaction Type, Date\<close>
  and the one data row \<open>Jane, Doe, Apple Inc (AAPL) - Purchase, Purchase, 01/02/2023\<close>:
  the field \<open>asset\<close> is mapped to column 0, because \<open>first name\<close> contains the synonym
  \<open>name\<close>, so the one transaction that is emitted has the asset \<open>Jane\<close> and the ticker
  \<open>None\<close>, not \<open>AAPL\<close>.
\<close>

theorem scenario_table_ticker_is_None:
  "create_header_map (map py_lower [''First Name'', ''Last Name'', ''Asset'', ''Transaction Type'', ''Date''])
     = [(''asset'', 0), (''transaction_type'', 3), (''date'', 4)]
   \<and> parse_tables
       \<lparr>tables = [[[''First Name'', ''Last Name'', ''Asset'', ''Transaction Type'', ''Date''],
                   [''Jane'', ''Doe'', ''Apple Inc (AAPL) - Purchase'', ''Purchase'', ''01/02/2023'']]],
        transaction_divs = []\<rparr>
     = Inr [[(''raw_text'', Str ''Jane | Doe | Apple Inc (AAPL) - Purchase | Purchase | 01/02/2023''),
             (''cell_count'', Num 5),
             (''asset'', Str ''Jane''),
             (''ticker'', NoneVal),
             (''transaction_type'', Str ''Purchase''),
             (''date'', Str ''01/02/2023'')]]"
  by code_simp

text \<open>
  C1.  A table whose fourth header is \<open>Asset\<close> and whose data row has three cells: the row
  passes the test for three cells, the read of column 3 raises \<open>IndexError\<close>, and nothing
  between there and the caller of the cascade catches it.
\<close>

theorem short_row_raises_IndexError:
  "parse_tables \<lparr>tables = [[[''A'', ''B'', ''C'', ''Asset''], [''x'', ''y'', ''z'']]],
                 transaction_divs = []\<rparr> = Inl IndexError
   \<and> extract_transactions_with_fallback
       (\<lambda>html. \<lparr>tables = [[[''A'', ''B'', ''C'', ''Asset''], [''x'', ''y'', ''z'']]],
                 transaction_divs = []\<rparr>)
       ''<table><tr><th>A</th><th>B</th><th>C</th><th>Asset</th></tr><tr><td>x</td><td>y</td><td>z</td></tr></table>''
     = ([], Inl IndexError)"
  by code_simp

section \<open>ParserChain: the keys of the emitted transactions\<close>








lemma parse_transaction_text_keys:
  "parse_transaction_text txt = Some t \<Longrightarrow> map fst t = tier_keys \<and> map_of t ''owner'' = Some (Str ''self'')
     \<and> map_of t ''relationship'' = Some (Str ''self'') \<and> map_of t ''raw_text'' = None"
  by (auto simp: parse_transaction_text_def tier_keys_def split: option.splits prod.splits)

lemma parse_divs_inv:
  assumes step: "\<And>blk t. parse_transaction_text blk = Some t \<Longrightarrow> P t"
  shows "\<forall>t \<in> set acc. P t \<Longrightarrow> \<forall>t \<in> set (parse_divs divs acc). P t"
proof (induction divs arbitrary: acc)
  case Nil
  then show ?case by simp
next
  case (Cons blk divs)
  show ?case
  proof (cases "is_likely_transaction blk")
    case True
    show ?thesis
    proof (cases "parse_transaction_text blk")
      case None
      with True Cons show ?thesis by simp
    next
      case (Some t)
      with step have "P t" by blast
      with Cons.prems have "\<forall>x \<in> set (acc @ [t]). P x" by simp
      from Cons.IH[OF this] Some True show ?thesis by simp
    qed
  next
    case False
    with Cons show ?thesis by simp
  qed
qed






text \<open>
  C10.  Every transaction that \<open>parse_transaction_text\<close> builds, and so every transaction
  that \<open>parse_alternative\<close> emits, has \<open>owner\<close> and \<open>relationship\<close> equal to \<open>self\<close>,
  whatever the text of the block says; \<open>identify_transaction_owner\<close> has no part in it.
\<close>

theorem heuristic_tier_owner_is_self:
  "(\<forall>t. parse_transaction_text txt = Some t \<longrightarrow>
        map_of t ''owner'' = Some (Str ''self'') \<and> map_of t ''relationship'' = Some (Str ''self''))
   \<and> (\<forall>t \<in> set (parse_alternative sp).
        map_of t ''owner'' = Some (Str ''self'') \<and> map_of t ''relationship'' = Some (Str ''self''))"
proof (intro conjI allI impI)
  fix t assume "parse_transaction_text txt = Some t"
  then show "map_of t ''owner'' = Some (Str ''self'')" "map_of t ''relationship'' = Some (Str ''self'')"
    by (simp_all add: parse_transaction_text_keys)
next
  show "\<forall>t \<in> set (parse_alternative sp).
        map_of t ''owner'' = Some (Str ''self'') \<and> map_of t ''relationship'' = Some (Str ''self'')"
    unfolding parse_alternative_def
    by (rule parse_divs_inv) (simp_all add: parse_transaction_text_keys)
qed

theorem heuristic_tier_owner_is_self_witness:
  "identify_transaction_owner ''Spousal Trust Fund purchase 1/2/2023 $15,001-$50,000'' = ''spouse''
   \<and> parse_alternative \<lparr>tables = [], transaction_divs = [''Spousal Trust Fund purchase 1/2/2023 $15,001-$50,000'']\<rparr>
     = [[(''asset'', Str ''Spousal Trust Fund purchase''), (''transaction_type'', Str ''purchase''),
         (''date'', Str ''1/2/2023''), (''amount'', Str ''$15,001-$50,000''), (''ticker'', NoneVal),
         (''owner'', Str ''self''), (''relationship'', Str ''self'')]]
   \<and> map_of [(''asset'', Str ''Spousal Trust Fund purchase''), (''transaction_type'', Str ''purchase''),
         (''date'', Str ''1/2/2023''), (''amount'', Str ''$15,001-$50,000''), (''ticker'', NoneVal),
         (''owner'', Str ''self''), (''relationship'', Str ''self'')] ''relationship'' = Some (Str ''self'')"
proof -
  let ?sp = "\<lparr>tables = [], transaction_divs = [''Spousal Trust Fund purchase 1/2/2023 $15,001-$50,000'']\<rparr>"
  have a: "identify_transaction_owner ''Spousal Trust Fund purchase 1/2/2023 $15,001-$50,000'' = ''spouse''"
    by code_simp
  have b: "parse_alternative ?sp
     = [[(''asset'', Str ''Spousal Trust Fund purchase''), (''transaction_type'', Str ''purchase''),
         (''date'', Str ''1/2/2023''), (''amount'', Str ''$15,001-$50,000''), (''ticker'', NoneVal),
         (''owner'', Str ''self''), (''relationship'', Str ''self'')]]"
    by code_simp
  from heuristic_tier_owner_is_self [of _ ?sp] a b show ?thesis by simp
qed

section \<open>ParserChain: the order of the strategies\<close>

text \<open>
  The lines of the log tell which strategies were run.  If the first strategy returns a
  list that is not empty, that list is the result and no other strategy is run.  If it
  returns the empty list, the second strategy is run, and its list is the result if it is
  not empty, the third strategy not being run.  If both are empty the third strategy is run
  and its list is the result, empty or not.  If the first strategy raises, so does the
  cascade, and no other strategy is run.
\<close>

lemma parser_chain_by_cases:
  "(\<forall>e. parse_tables (bs html) = Inl e \<longrightarrow>
        extract_transactions_with_fallback bs html = ([], Inl e))
   \<and> (\<forall>t1. parse_tables (bs html) = Inr t1 \<and> t1 \<noteq> [] \<longrightarrow>
        extract_transactions_with_fallback bs html = ([], Inr t1))
   \<and> (parse_tables (bs html) = Inr [] \<and> parse_alternative (bs html) \<noteq> [] \<longrightarrow>
        extract_transactions_with_fallback bs html =
          ([''Standard parsing failed, trying alternative methods...''],
           Inr (parse_alternative (bs html))))
   \<and> (parse_tables (bs html) = Inr [] \<and> parse_alternative (bs html) = [] \<longrightarrow>
        extract_transactions_with_fallback bs html =
          ([''Standard parsing failed, trying alternative methods...'',
            ''Alternative parsing failed, trying regex extraction...''],
           Inr (parse_with_regex html)))"
  by (simp add: extract_transactions_with_fallback_def Let_def)

text \<open>
  C6.  A document with a table whose fourth header is \<open>Asset\<close> and whose data row has
  three cells, and with a \<open>div\<close> of class \<open>transaction\<close> that the second strategy turns into a
  transaction: the first strategy does not return the empty list but raises
  \<open>IndexError\<close>, so the second strategy is never run and the cascade has no result at
  all, although the first strategy has found nothing and the second finds a transaction.
\<close>

theorem short_row_stops_the_cascade:
  "parse_alternative
       \<lparr>tables = [[[''A'', ''B'', ''C'', ''Asset''], [''x'', ''y'', ''z'']]],
        transaction_divs = [''Apple Inc Purchase 01/02/2023 $1,001'']\<rparr>
     = [[(''asset'', Str ''Apple Inc Purchase''), (''transaction_type'', Str ''Purchase''),
         (''date'', Str ''01/02/2023''), (''amount'', Str ''$1,001''), (''ticker'', NoneVal),
         (''owner'', Str ''self''), (''relationship'', Str ''self'')]]
   \<and> parse_tables
       \<lparr>tables = [[[''A'', ''B'', ''C'', ''Asset''], [''x'', ''y'', ''z'']]],
        transaction_divs = [''Apple Inc Purchase 01/02/2023 $1,001'']\<rparr>
     = Inl IndexError
   \<and> extract_transactions_with_fallback
       (\<lambda>html. \<lparr>tables = [[[''A'', ''B'', ''C'', ''Asset''], [''x'', ''y'', ''z'']]],
                 transaction_divs = [''Apple Inc Purchase 01/02/2023 $1,001'']\<rparr>)
       ''<table><tr><th>A</th><th>B</th><th>C</th><th>Asset</th></tr><tr><td>x</td><td>y</td><td>z</td></tr></table><div class=transaction>Apple Inc Purchase 01/02/2023 $1,001</div>''
     = ([], Inl IndexError)"
  by code_simp

section \<open>The world: what each part of the program adds to it\<close>

lemma events_emit [simp]: "events (emit e w) = events w @ [e]"
  by (simp add: emit_def)

lemma events_tick [simp]: "events (tick w) = events w"
  by (simp add: tick_def)

lemma clock_emit [simp]: "clock (emit e w) = clock w"
  by (simp add: emit_def)

lemma clock_tick [simp]: "clock (tick w) = Suc (clock w)"
  by (simp add: tick_def)

lemma session_established_emit [simp]: "session_established (emit e w) = session_established w"
  by (simp add: emit_def)

lemma session_established_tick [simp]: "session_established (tick w) = session_established w"
  by (simp add: tick_def)

lemma render_consent_events:
  "\<exists>es. events (snd (render_consent en w)) = events w @ es \<and> quiet es"
  by (auto simp: render_consent_def Let_def quiet_def split: option.splits)

lemma direct_consent_events:
  "\<exists>es. events (snd (direct_consent en join w)) = events w @ es \<and> quiet es"
  by (auto simp: direct_consent_def Let_def quiet_def split: option.splits)

lemma establish_session_events:
  "\<exists>es. events (snd (establish_session en w)) = events w @ EstablishSession # es \<and> quiet es"
proof -
  obtain b w1 where r: "render_consent en (emit EstablishSession w) = (b, w1)" by force
  from render_consent_events[of en "emit EstablishSession w"] r
  obtain es1 where e1: "events w1 = events w @ EstablishSession # es1" "quiet es1" by auto
  show ?thesis
  proof (cases b)
    case True
    with r e1 show ?thesis by (auto simp: establish_session_def)
  next
    case False
    from direct_consent_events[of en "urljoin en" w1]
    obtain es2 where e2: "events (snd (direct_consent en (urljoin en) w1)) = events w1 @ es2" "quiet es2"
      by auto
    from e1 e2 have "quiet (es1 @ es2)" by (auto simp: quiet_def)
    with False r e1 e2 show ?thesis by (auto simp: establish_session_def)
  qed
qed

lemma attempts_made_emit [simp]:
  "attempts_made (emit e w) = (if is_attempt e then Suc (attempts_made w) else attempts_made w)"
  by (simp add: attempts_made_def)

lemma attempts_made_tick [simp]: "attempts_made (tick w) = attempts_made w"
  by (simp add: attempts_made_def)

lemma attempts_made_on_exception [simp]:
  "attempts_made (snd (on_exception max_retries attempt w)) = attempts_made w"
  by (simp add: on_exception_def)

lemma attempts_made_establish_session [simp]:
  "attempts_made (snd (establish_session en w)) = attempts_made w"
proof -
  from establish_session_events[of en w] obtain es where
    "events (snd (establish_session en w)) = events w @ EstablishSession # es" "quiet es" by blast
  then show ?thesis by (simp add: attempts_made_def quiet_def filter_empty_conv[THEN iffD2])
qed

lemma attempts_made_read_page_source [simp]:
  "attempts_made (snd (read_page_source en max_retries attempt w)) = attempts_made w"
  by (simp add: read_page_source_def split: option.splits)

lemma attempts_made_render_attempt [simp]:
  "attempts_made (snd (render_attempt en url max_retries attempt w)) = attempts_made w"
  by (simp add: render_attempt_def Let_def split: option.splits)

lemma attempts_made_direct_attempt [simp]:
  "attempts_made (snd (direct_attempt en url max_retries attempt w)) = attempts_made w"
  by (simp add: direct_attempt_def Let_def split: option.splits)

lemma attempts_made_attempt_body:
  "attempts_made (snd (attempt_body en url max_retries attempt w)) = Suc (attempts_made w)"
  by (simp add: attempt_body_def)

lemma sleep_fits:
  assumes "attempt < 34"
  shows "\<not> sleep_overflows (2 ^ attempt)"
proof -
  from assms have "attempt \<le> 33" by simp
  then have "(2::int) ^ attempt \<le> 2 ^ 33" by (intro power_increasing) simp_all
  then have "(2::int) ^ attempt * 10 ^ 9 \<le> 2 ^ 33 * 10 ^ 9" by simp
  also have "\<dots> \<le> 2 ^ 63 - 1" by simp
  finally show ?thesis by (simp add: sleep_overflows_def)
qed

lemma on_exception_raises:
  "on_exception max_retries attempt w = (Inl e, w') \<Longrightarrow>
     e = OverflowError \<and> 34 \<le> attempt \<and> int attempt < max_retries - 1"
proof -
  assume a: "on_exception max_retries attempt w = (Inl e, w')"
  then have b: "int attempt < max_retries - 1" "sleep_overflows (2 ^ attempt)" "e = OverflowError"
    by (auto simp: on_exception_def split: if_splits)
  have "34 \<le> attempt"
  proof (rule ccontr)
    assume "\<not> 34 \<le> attempt"
    then have "attempt < 34" by simp
    from sleep_fits[OF this] b(2) show False by simp
  qed
  with b show ?thesis by simp
qed

lemma read_page_source_raises:
  "read_page_source en max_retries attempt w = (Inl e, w') \<Longrightarrow>
     e = OverflowError \<and> 34 \<le> attempt \<and> int attempt < max_retries - 1"
  by (auto simp: read_page_source_def split: option.splits dest: on_exception_raises)

lemma render_attempt_raises:
  "render_attempt en url max_retries attempt w = (Inl e, w') \<Longrightarrow>
     e = OverflowError \<and> 34 \<le> attempt \<and> int attempt < max_retries - 1"
  unfolding render_attempt_def Let_def
  by (auto split: option.splits if_splits dest: on_exception_raises read_page_source_raises)

lemma direct_attempt_raises:
  "direct_attempt en url max_retries attempt w = (Inl e, w') \<Longrightarrow>
     e = OverflowError \<and> 34 \<le> attempt \<and> int attempt < max_retries - 1"
  unfolding direct_attempt_def Let_def
  by (auto split: option.splits if_splits dest: on_exception_raises)

lemma attempt_body_raises:
  "attempt_body en url max_retries attempt w = (Inl e, w') \<Longrightarrow>
     e = OverflowError \<and> 34 \<le> attempt \<and> int attempt < max_retries - 1"
  unfolding attempt_body_def
  by (auto split: if_splits dest: render_attempt_raises direct_attempt_raises)

lemma download_loop_attempts:
  "download_loop en url max_retries attempt w = (res, w') \<Longrightarrow>
     \<exists>k. attempts_made w' = attempts_made w + k
       \<and> int k \<le> max 0 (max_retries - int attempt)
       \<and> (res = Inr None \<longrightarrow> int k = max 0 (max_retries - int attempt))
       \<and> (\<forall>html. res = Inr (Some html) \<longrightarrow>
            (\<exists>a w1. attempt \<le> a \<and> int a < max_retries
               \<and> attempt_body en url max_retries a w1 = (Inr (Some html), w')))
       \<and> (\<forall>e. res = Inl e \<longrightarrow> e = OverflowError \<and> 36 \<le> max_retries)"
proof (induction en url max_retries attempt w arbitrary: res w' rule: download_loop.induct)
  case (1 en url max_retries attempt w)
  show ?case
  proof (cases "int attempt < max_retries")
    case False
    with "1.prems" have "res = Inr None" "w' = w" by simp_all
    with False show ?thesis by simp
  next
    case True
    obtain r1 w1 where b: "attempt_body en url max_retries attempt w = (r1, w1)" by force
    from attempts_made_attempt_body[of en url max_retries attempt w] b
    have a1: "attempts_made w1 = Suc (attempts_made w)" by simp
    have one: "int (1::nat) \<le> max 0 (max_retries - int attempt)" using True by simp
    show ?thesis
    proof (cases r1)
      case (Inl e)
      with True b "1.prems" have r: "res = Inl e" "w' = w1" by simp_all
      from attempt_body_raises b Inl have "e = OverflowError \<and> 34 \<le> attempt \<and> int attempt < max_retries - 1"
        by blast
      then have "e = OverflowError \<and> 36 \<le> max_retries" by auto
      with r a1 one show ?thesis by (intro exI[of _ 1]) auto
    next
      case (Inr o1)
      show ?thesis
      proof (cases o1)
        case (Some html)
        with Inr True b "1.prems" have "res = Inr (Some html)" "w' = w1" by simp_all
        with a1 True b Inr Some one show ?thesis
          by (intro exI[of _ 1]) auto
      next
        case None
        with Inr True b "1.prems" have rec: "download_loop en url max_retries (Suc attempt) w1 = (res, w')"
          by simp
        from b Inr None have b': "(Inr None, w1) = attempt_body en url max_retries attempt w" by simp
        from "1.IH"[OF True b' refl refl rec] obtain k where
          k: "attempts_made w' = attempts_made w1 + k"
             "int k \<le> max 0 (max_retries - int (Suc attempt))"
             "res = Inr None \<longrightarrow> int k = max 0 (max_retries - int (Suc attempt))"
             "\<forall>html. res = Inr (Some html) \<longrightarrow>
              (\<exists>a w2. Suc attempt \<le> a \<and> int a < max_retries
                 \<and> attempt_body en url max_retries a w2 = (Inr (Some html), w'))"
             "\<forall>e. res = Inl e \<longrightarrow> e = OverflowError \<and> 36 \<le> max_retries"
          by blast
        have k4: "\<forall>html. res = Inr (Some html) \<longrightarrow>
              (\<exists>a w2. attempt \<le> a \<and> int a < max_retries
                 \<and> attempt_body en url max_retries a w2 = (Inr (Some html), w'))"
        proof (intro allI impI)
          fix html assume "res = Inr (Some html)"
          with k(4) obtain a w2 where "Suc attempt \<le> a" "int a < max_retries"
            "attempt_body en url max_retries a w2 = (Inr (Some html), w')" by blast
          then have "attempt \<le> a \<and> int a < max_retries
             \<and> attempt_body en url max_retries a w2 = (Inr (Some html), w')" by simp
          then show "\<exists>a w2. attempt \<le> a \<and> int a < max_retries
                 \<and> attempt_body en url max_retries a w2 = (Inr (Some html), w')" by blast
        qed
        from k(1) a1 have "attempts_made w' = attempts_made w + Suc k" by simp
        moreover from k(2) True have "int (Suc k) \<le> max 0 (max_retries - int attempt)" by simp
        moreover from k(3) True have "res = Inr None \<longrightarrow> int (Suc k) = max 0 (max_retries - int attempt)"
          by auto
        ultimately show ?thesis using k4 k(5) by blast
      qed
    qed
  qed
qed

lemma on_exception_events:
  "\<exists>ss. events (snd (on_exception max_retries attempt w)) = events w @ ss \<and> list_all is_sleep ss"
  by (simp add: on_exception_def)

lemma read_page_source_events:
  "\<exists>ss. events (snd (read_page_source en max_retries attempt w)) = events w @ ss \<and> list_all is_sleep ss"
  by (simp add: read_page_source_def on_exception_def split: option.splits)

lemma backoff_overflows_from_attempt_34:
  "on_exception 36 34 w = (Inl OverflowError, w)
   \<and> on_exception 36 33 w = (Inr None, emit (Sleep 8589934592) w)
   \<and> download_loop env_all_fail ''u'' 36 34 world0
       = (Inl OverflowError, tick (emit (HttpGet ''u'') (emit (Attempt 35) world0)))"
  by (simp add: on_exception_def sleep_overflows_def attempt_body_def direct_attempt_def Let_def
        env_all_fail_def)

section \<open>Fetcher: the retry budget\<close>

text \<open>
  C4, as the program has it.  For a reference that has its \<open>link\<close> and \<open>name\<close>, the download
  makes at most \<open>max_retries\<close> attempts.  With \<open>max_retries\<close> up to 35, and so with the
  default of 5, nothing is raised: the download returns a document or \<open>None\<close>.  \<open>None\<close> is
  returned only after all \<open>max_retries\<close> attempts were made, and a document only when one
  of the attempts returned it.
\<close>

theorem download_returns_None_after_max_retries:
  assumes "map_of rd ''link'' = Some url" and "map_of rd ''name'' = Some n"
  shows "\<exists>res w' k. download_report_with_enhanced_retry en rd max_retries w = (res, w')
           \<and> attempts_made w' = attempts_made w + k
           \<and> int k \<le> max 0 max_retries
           \<and> (res = Inr None \<longrightarrow> int k = max 0 max_retries)
           \<and> (\<forall>html. res = Inr (Some html) \<longrightarrow>
                (\<exists>a w1. int a < max_retries
                   \<and> attempt_body en url max_retries a w1 = (Inr (Some html), w')))
           \<and> (max_retries \<le> 35 \<longrightarrow> (\<exists>r. res = Inr r))"
proof -
  obtain res w' where l: "download_loop en url max_retries 0 w = (res, w')" by force
  from download_loop_attempts[OF l] obtain k where
    k: "attempts_made w' = attempts_made w + k" "int k \<le> max 0 max_retries"
       "res = Inr None \<longrightarrow> int k = max 0 max_retries"
       "\<forall>html. res = Inr (Some html) \<longrightarrow>
            (\<exists>a w1. 0 \<le> a \<and> int a < max_retries
               \<and> attempt_body en url max_retries a w1 = (Inr (Some html), w'))"
       "\<forall>e. res = Inl e \<longrightarrow> e = OverflowError \<and> 36 \<le> max_retries"
    by auto
  from k(4) have k4: "\<forall>html. res = Inr (Some html) \<longrightarrow>
       (\<exists>a w1. int a < max_retries \<and> attempt_body en url max_retries a w1 = (Inr (Some html), w'))"
    by blast
  have k5: "max_retries \<le> 35 \<longrightarrow> (\<exists>r. res = Inr r)"
  proof
    assume m: "max_retries \<le> 35"
    show "\<exists>r. res = Inr r"
    proof (cases res)
      case (Inl e)
      with k(5) m show ?thesis by simp
    next
      case (Inr r)
      then show ?thesis by blast
    qed
  qed
  from assms l have "download_report_with_enhanced_retry en rd max_retries w = (res, w')"
    by (simp add: download_report_with_enhanced_retry_def)
  with k(1,2,3) k4 k5 show ?thesis by blast
qed

theorem download_returns_None_after_max_retries_witness:
  "map_of [(''link'', ''u''), (''name'', ''n'')] ''link'' = Some ''u''
   \<and> map_of [(''link'', ''u''), (''name'', ''n'')] ''name'' = Some ''n''
   \<and> (2::int) \<le> 35
   \<and> fst (download_report_with_enhanced_retry env_all_fail [(''link'', ''u''), (''name'', ''n'')] 2 world0)
       = Inr None
   \<and> attempts_made (snd (download_report_with_enhanced_retry env_all_fail
        [(''link'', ''u''), (''name'', ''n'')] 2 world0)) = 2"
proof -
  let ?rd = "[(''link'', ''u''), (''name'', ''n'')]"
  have h1: "map_of ?rd ''link'' = Some ''u''" by simp
  have h2: "map_of ?rd ''name'' = Some ''n''" by simp
  have h3: "(2::int) \<le> 35" by simp
  have e: "fst (download_report_with_enhanced_retry env_all_fail ?rd 2 world0) = Inr None"
    by code_simp
  have a0: "attempts_made world0 = 0" by (simp add: attempts_made_def world0_def)
  from download_returns_None_after_max_retries[OF h1 h2, of env_all_fail 2 world0]
  obtain res w' k where
    d: "download_report_with_enhanced_retry env_all_fail ?rd 2 world0 = (res, w')"
    and k: "attempts_made w' = attempts_made world0 + k" "res = Inr None \<longrightarrow> int k = max 0 2"
    and r: "(2::int) \<le> 35 \<longrightarrow> (\<exists>r. res = Inr r)"
    by blast
  from r h3 obtain r0 where "res = Inr r0" by blast
  with d e have "res = Inr None" by simp
  with k a0 have "attempts_made w' = 2" by simp
  with d e h1 h2 h3 show ?thesis by simp
qed

text \<open>
  C4, as stated, fails: when each of the five attempts fails, the download returns \<open>None\<close>;
  no exception leaves it, and nothing names the reference or the last cause.
\<close>

theorem exhausted_download_returns_None:
  "fst (download_report_with_enhanced_retry env_all_fail [(''link'', ''u''), (''name'', ''n'')] 5 world0)
     = Inr None
   \<and> events (snd (download_report_with_enhanced_retry env_all_fail [(''link'', ''u''), (''name'', ''n'')] 5 world0))
     = [Attempt 1, DriverGet ''u'', Sleep 1, Attempt 2, DriverGet ''u'', Sleep 2,
        Attempt 3, DriverGet ''u'', Sleep 4, Attempt 4, HttpGet ''u'', Sleep 8,
        Attempt 5, HttpGet ''u'']"
  by code_simp

section \<open>Fetcher: the home page of the portal\<close>

text \<open>
  C5.  In a render attempt (\<open>attempt < 3\<close>) whose first page is titled with the marker
  \<open>eFD: Home\<close>, what the Fetcher does next is: one call of \<open>establish_session\<close> (whose own
  events \<open>es\<close> start no further session and no attempt), then one more fetch of the same
  address, and after that nothing but sleeping.  (The events \<open>es\<close> are those of the
  consent strategies, which load the consent page, not the document.)  If the page fetched
  again carries the
  marker too, the pass ends without a document and without a back-off, and the loop goes on
  with the next attempt number: the attempt is used up.
\<close>

theorem marker_triggers_one_refresh_and_one_refetch:
  assumes a: "attempt < 3"
    and g: "driver_get en (clock w) url"
    and t: "driver_title en (Suc (clock w)) = Some title"
    and m: "py_in ''eFD: Home'' title"
  shows "\<exists>w4 es rest.
       w4 = snd (establish_session en (after_first_fetch url attempt w))
     \<and> events w4 = events w @ [Attempt (attempt + 1), DriverGet url, Sleep 3] @ EstablishSession # es
     \<and> quiet es
     \<and> events (snd (attempt_body en url max_retries attempt w)) = events w4 @ DriverGet url # rest
     \<and> list_all is_sleep rest
     \<and> (driver_get en (clock w4) url
          \<and> (\<exists>title2. driver_title en (Suc (clock w4)) = Some title2 \<and> py_in ''eFD: Home'' title2)
          \<longrightarrow> attempt_body en url max_retries attempt w = (Inr None, after_refetch url w4)
              \<and> rest = [Sleep 3]
              \<and> (int attempt < max_retries \<longrightarrow>
                   download_loop en url max_retries attempt w
                     = download_loop en url max_retries (Suc attempt) (after_refetch url w4)))"
proof -
  define w3 where "w3 = after_first_fetch url attempt w"
  define w4 where "w4 = snd (establish_session en w3)"
  have ev3: "events w3 = events w @ [Attempt (attempt + 1), DriverGet url, Sleep 3]"
    by (simp add: w3_def after_first_fetch_def)
  from establish_session_events[of en w3] obtain es where
    es: "events w4 = events w3 @ EstablishSession # es" "quiet es"
    unfolding w4_def by blast
  have first: "render_attempt en url max_retries attempt (emit (Attempt (attempt + 1)) w) =
      (let w5 = tick (emit (DriverGet url) w4) in
       if \<not> driver_get en (clock w4) url then on_exception max_retries attempt w5
       else
         (let w6 = emit (Sleep 3) w5; w7 = tick w6 in
          case driver_title en (clock w6) of
            None \<Rightarrow> on_exception max_retries attempt w7
          | Some title2 \<Rightarrow>
              if py_in ''eFD: Home'' title2 then (Inr None, w7)
              else read_page_source en max_retries attempt w7))"
    unfolding render_attempt_def w4_def w3_def after_first_fetch_def
    using g t m by (simp add: Let_def cong: option.case_cong if_cong)
  let ?w5 = "tick (emit (DriverGet url) w4)"
  let ?w7 = "tick (emit (Sleep 3) ?w5)"
  have body: "attempt_body en url max_retries attempt w =
      (if \<not> driver_get en (clock w4) url then on_exception max_retries attempt ?w5
       else (case driver_title en (Suc (clock w4)) of
               None \<Rightarrow> on_exception max_retries attempt ?w7
             | Some title2 \<Rightarrow>
                 if py_in ''eFD: Home'' title2 then (Inr None, ?w7)
                 else read_page_source en max_retries attempt ?w7))"
    using a first by (simp add: attempt_body_def Let_def)
  have rest: "\<exists>rest. events (snd (attempt_body en url max_retries attempt w)) = events w4 @ DriverGet url # rest
       \<and> list_all is_sleep rest"
  proof (cases "driver_get en (clock w4) url")
    case False
    from on_exception_events[of max_retries attempt ?w5] obtain ss where
      "events (snd (on_exception max_retries attempt ?w5)) = events ?w5 @ ss" "list_all is_sleep ss" by blast
    with False body show ?thesis by simp
  next
    case True
    show ?thesis
    proof (cases "driver_title en (Suc (clock w4))")
      case None
      from on_exception_events[of max_retries attempt ?w7] obtain ss where
        "events (snd (on_exception max_retries attempt ?w7)) = events ?w7 @ ss" "list_all is_sleep ss" by blast
      with True None body show ?thesis by simp
    next
      case (Some title2)
      show ?thesis
      proof (cases "py_in ''eFD: Home'' title2")
        case True
        with \<open>driver_get en (clock w4) url\<close> Some body show ?thesis by simp
      next
        case False
        from read_page_source_events[of en max_retries attempt ?w7] obtain ss where
          "events (snd (read_page_source en max_retries attempt ?w7)) = events ?w7 @ ss"
          "list_all is_sleep ss" by blast
        with \<open>driver_get en (clock w4) url\<close> Some False body show ?thesis by simp
      qed
    qed
  qed
  then obtain rest where r: "events (snd (attempt_body en url max_retries attempt w)) = events w4 @ DriverGet url # rest"
    "list_all is_sleep rest" by blast
  have second: "driver_get en (clock w4) url
          \<and> (\<exists>title2. driver_title en (Suc (clock w4)) = Some title2 \<and> py_in ''eFD: Home'' title2)
          \<longrightarrow> attempt_body en url max_retries attempt w = (Inr None, after_refetch url w4)
              \<and> rest = [Sleep 3]
              \<and> (int attempt < max_retries \<longrightarrow>
                   download_loop en url max_retries attempt w
                     = download_loop en url max_retries (Suc attempt) (after_refetch url w4))"
  proof (intro impI)
    assume h: "driver_get en (clock w4) url
          \<and> (\<exists>title2. driver_title en (Suc (clock w4)) = Some title2 \<and> py_in ''eFD: Home'' title2)"
    with body have b: "attempt_body en url max_retries attempt w = (Inr None, after_refetch url w4)"
      by (auto simp: after_refetch_def)
    with r(1) have "rest = [Sleep 3]" by (simp add: after_refetch_def)
    moreover from b have "int attempt < max_retries \<longrightarrow>
                   download_loop en url max_retries attempt w
                     = download_loop en url max_retries (Suc attempt) (after_refetch url w4)"
      by simp
    ultimately show "attempt_body en url max_retries attempt w = (Inr None, after_refetch url w4)
              \<and> rest = [Sleep 3]
              \<and> (int attempt < max_retries \<longrightarrow>
                   download_loop en url max_retries attempt w
                     = download_loop en url max_retries (Suc attempt) (after_refetch url w4))"
      using b by blast
  qed
  from ev3 es have "events w4 = events w @ [Attempt (attempt + 1), DriverGet url, Sleep 3] @ EstablishSession # es"
    by simp
  with es(2) r second show ?thesis unfolding w4_def w3_def by blast
qed

theorem marker_triggers_one_refresh_and_one_refetch_witness:
  "(0::nat) < 3
   \<and> driver_get env_always_home (clock world0) ''u''
   \<and> driver_title env_always_home (Suc (clock world0)) = Some ''eFD: Home''
   \<and> py_in ''eFD: Home'' ''eFD: Home''
   \<and> fst (attempt_body env_always_home ''u'' 5 0 world0) = Inr None
   \<and> events (snd (attempt_body env_always_home ''u'' 5 0 world0))
       = [Attempt 1, DriverGet ''u'', Sleep 3,
          EstablishSession, DriverGet ''https://efdsearch.senate.gov/search/'', Sleep 2, Click,
          DriverGet ''u'', Sleep 3]"
proof -
  have h1: "(0::nat) < 3" by simp
  have h2: "driver_get env_always_home (clock world0) ''u''"
    by (simp add: env_always_home_def env_render_ok_def env_all_fail_def)
  have h3: "driver_title env_always_home (Suc (clock world0)) = Some ''eFD: Home''"
    by (simp add: env_always_home_def)
  have h4: "py_in ''eFD: Home'' ''eFD: Home''" by simp
  have g: "\<And>k. driver_get env_always_home k ''u''"
    by (simp add: env_always_home_def env_render_ok_def env_all_fail_def)
  have t: "\<And>k. driver_title env_always_home k = Some ''eFD: Home''"
    by (simp add: env_always_home_def)
  from marker_triggers_one_refresh_and_one_refetch [OF h1 h2 h3 h4, of 5]
  obtain w4 where
    "driver_get env_always_home (clock w4) ''u''
       \<and> (\<exists>title2. driver_title env_always_home (Suc (clock w4)) = Some title2 \<and> py_in ''eFD: Home'' title2)
     \<longrightarrow> attempt_body env_always_home ''u'' 5 0 world0 = (Inr None, after_refetch ''u'' w4)"
    by blast
  with g t h4 have "attempt_body env_always_home ''u'' 5 0 world0 = (Inr None, after_refetch ''u'' w4)"
    by blast
  then have a: "fst (attempt_body env_always_home ''u'' 5 0 world0) = Inr None" by simp
  have e: "events (snd (attempt_body env_always_home ''u'' 5 0 world0))
       = [Attempt 1, DriverGet ''u'', Sleep 3,
          EstablishSession, DriverGet ''https://efdsearch.senate.gov/search/'', Sleep 2, Click,
          DriverGet ''u'', Sleep 3]"
    by code_simp
  from h1 h2 h3 h4 a e show ?thesis by blast
qed

section \<open>SessionManager: acquiring once\<close>

text \<open>
  C9.  Once the flag \<open>session_established\<close> is set, \<open>establish_session_once\<close> returns
  \<open>True\<close> and leaves the world as it is: no call is made and no event is added, so neither
  strategy is run.  A call that returns \<open>True\<close> sets the flag, so a second call after it
  changes nothing.
\<close>

theorem establish_session_once_idempotent:
  "(session_established w \<longrightarrow> establish_session_once en w = (True, w))
   \<and> (\<forall>w1. establish_session_once en w = (True, w1) \<longrightarrow>
         session_established w1 \<and> establish_session_once en w1 = (True, w1))"
proof (intro conjI allI impI)
  assume "session_established w"
  then show "establish_session_once en w = (True, w)" by (simp add: establish_session_once_def)
next
  fix w1 assume a: "establish_session_once en w = (True, w1)"
  then show "session_established w1"
    by (auto simp: establish_session_once_def split: if_splits prod.splits bool.splits)
  then show "establish_session_once en w1 = (True, w1)" by (simp add: establish_session_once_def)
qed

theorem establish_session_once_idempotent_witness:
  "session_established (world0\<lparr>session_established := True\<rparr>)
   \<and> establish_session_once env_all_fail (world0\<lparr>session_established := True\<rparr>)
       = (True, world0\<lparr>session_established := True\<rparr>)
   \<and> events (snd (establish_session_once env_render_ok world0))
       = [EstablishSession, DriverGet ''https://efdsearch.senate.gov/search/'', Sleep 2, Click]
   \<and> fst (establish_session_once env_render_ok world0) = True
   \<and> establish_session_once env_render_ok (snd (establish_session_once env_render_ok world0))
       = (True, snd (establish_session_once env_render_ok world0))"
proof -
  let ?w = "world0\<lparr>session_established := True\<rparr>"
  have h: "session_established ?w" by simp
  from establish_session_once_idempotent [of ?w env_all_fail] h
  have a: "establish_session_once env_all_fail ?w = (True, ?w)" by blast
  have b: "events (snd (establish_session_once env_render_ok world0))
       = [EstablishSession, DriverGet ''https://efdsearch.senate.gov/search/'', Sleep 2, Click]"
    by code_simp
  have c: "fst (establish_session_once env_render_ok world0) = True" by code_simp
  then have "establish_session_once env_render_ok world0
       = (True, snd (establish_session_once env_render_ok world0))"
    by (metis prod.collapse)
  with establish_session_once_idempotent [of world0 env_render_ok]
  have d: "establish_session_once env_render_ok (snd (establish_session_once env_render_ok world0))
       = (True, snd (establish_session_once env_render_ok world0))" by blast
  from h a b c d show ?thesis by blast
qed

section \<open>RecordNormalizer: the success flag\<close>

text \<open>
  C7.  In the record built from a list of transactions and a raw document,
  \<open>extraction_success\<close> is false exactly when the list is empty and \<open>No transactions\<close>
  does not occur in the document; \<open>transaction_count\<close> is the length of the list.  This is
  so for every record that \<open>process_report\<close> returns, with the downloaded document and
  the transactions the cascade extracted from it.
\<close>

theorem extraction_success_iff:
  "(\<not> extraction_success (report_result n url rd ts html now))
      = (ts = [] \<and> \<not> (\<exists>pre post. html = pre @ ''No transactions'' @ post))
   \<and> transaction_count (report_result n url rd ts html now) = length ts
   \<and> (\<forall>r w'. process_report en bs now rd w = (Inr (Some r), w') \<longrightarrow>
        (\<exists>doc. fst (download_report_with_enhanced_retry en rd 5 w) = Inr (Some doc)
           \<and> snd (extract_transactions_with_fallback bs doc) = Inr (transactions r)
           \<and> (\<not> extraction_success r)
               = (transactions r = [] \<and> \<not> (\<exists>pre post. doc = pre @ ''No transactions'' @ post))))"
proof (intro conjI allI impI)
  show "(\<not> extraction_success (report_result n url rd ts html now))
      = (ts = [] \<and> \<not> (\<exists>pre post. html = pre @ ''No transactions'' @ post))"
    by (simp add: report_result_def py_in_iff)
  show "transaction_count (report_result n url rd ts html now) = length ts"
    by (simp add: report_result_def)
next
  fix r w' assume p: "process_report en bs now rd w = (Inr (Some r), w')"
  obtain d w1 where dl: "download_report_with_enhanced_retry en rd 5 w = (d, w1)" by force
  from p dl obtain nm doc ts where
    nm: "map_of rd ''name'' = Some nm" and d: "d = Inr (Some doc)"
    and ts: "snd (extract_transactions_with_fallback bs doc) = Inr ts"
    and r: "r = report_result nm (case map_of rd ''link'' of Some u \<Rightarrow> u | None \<Rightarrow> []) rd ts doc now"
    by (auto simp: process_report_def split: option.splits sum.splits if_splits)
  from r have "transactions r = ts"
    "(\<not> extraction_success r) = (ts = [] \<and> \<not> (\<exists>pre post. doc = pre @ ''No transactions'' @ post))"
    by (simp_all add: report_result_def py_in_iff)
  with dl d ts show "\<exists>doc. fst (download_report_with_enhanced_retry en rd 5 w) = Inr (Some doc)
           \<and> snd (extract_transactions_with_fallback bs doc) = Inr (transactions r)
           \<and> (\<not> extraction_success r)
               = (transactions r = [] \<and> \<not> (\<exists>pre post. doc = pre @ ''No transactions'' @ post))"
    by auto
qed

theorem extraction_success_iff_witness:
  "fst (process_report env_render_ok (\<lambda>h. \<lparr>tables = [], transaction_divs = []\<rparr>) ''2024-01-01T00:00:00''
          [(''link'', ''u''), (''name'', ''n'')] world0)
     = Inr (Some (report_result ''n'' ''u'' [(''link'', ''u''), (''name'', ''n'')] []
                    ''<html>No transactions</html>'' ''2024-01-01T00:00:00''))
   \<and> extraction_success (report_result ''n'' ''u'' [(''link'', ''u''), (''name'', ''n'')] []
                    ''<html>No transactions</html>'' ''2024-01-01T00:00:00'')
   \<and> \<not> extraction_success (report_result ''n'' ''u'' [(''link'', ''u''), (''name'', ''n'')] []
                    ''<html></html>'' ''2024-01-01T00:00:00'')"
proof -
  let ?rd = "[(''link'', ''u''), (''name'', ''n'')]"
  let ?now = "''2024-01-01T00:00:00''"
  have d: "fst (download_report_with_enhanced_retry env_render_ok ?rd 5 world0)
      = Inr (Some ''<html>No transactions</html>'')" by code_simp
  have x: "snd (extract_transactions_with_fallback (\<lambda>h. \<lparr>tables = [], transaction_divs = []\<rparr>)
      ''<html>No transactions</html>'') = Inr []" by code_simp
  have w: "write_file env_render_ok k f c" for k f c
    by (simp add: env_render_ok_def)
  have p: "fst (process_report env_render_ok (\<lambda>h. \<lparr>tables = [], transaction_divs = []\<rparr>) ?now ?rd world0)
     = Inr (Some (report_result ''n'' ''u'' ?rd [] ''<html>No transactions</html>'' ?now))"
  proof -
    obtain w1 where "download_report_with_enhanced_retry env_render_ok ?rd 5 world0
        = (Inr (Some ''<html>No transactions</html>''), w1)"
      using d by (cases "download_report_with_enhanced_retry env_render_ok ?rd 5 world0") simp
    with x w show ?thesis by (simp add: process_report_def)
  qed
  have m: "''<html>No transactions</html>'' = ''<html>'' @ ''No transactions'' @ ''</html>''" by simp
  have nm: "\<not> py_in ''No transactions'' ''<html></html>''" by simp
  from extraction_success_iff [of "''n''" "''u''" ?rd "[]" "''<html>No transactions</html>''" ?now] m
  have a: "extraction_success (report_result ''n'' ''u'' ?rd [] ''<html>No transactions</html>'' ?now)"
    by blast
  from extraction_success_iff [of "''n''" "''u''" ?rd "[]" "''<html></html>''" ?now] nm
  have b: "\<not> extraction_success (report_result ''n'' ''u'' ?rd [] ''<html></html>'' ?now)"
    by (simp add: py_in_iff)
  from p a b show ?thesis by blast
qed

end
